theory Spec2Isabelle
  imports Complex_Main
begin

section \<open>Go errors\<close>

text \<open>
  A Go \<open>error\<close> value: \<open>ErrorString m\<close> stands for \<open>errors.New(m)\<close> and for any other
  error with message \<open>m\<close> and no \<open>Unwrap\<close> method, \<open>ContextError\<close> for the two errors a
  \<open>context.Context\<close> reports, and \<open>Wrapped m e\<close> for an error with message \<open>m\<close> whose
  \<open>Unwrap\<close> method returns \<open>e\<close> (what \<open>fmt.Errorf\<close> builds with \<open>%w\<close>). A \<open>nil\<close> error
  is \<open>None\<close>.
\<close>

datatype ctx_error = Canceled | DeadlineExceeded

datatype go_error = ErrorString string | ContextError ctx_error | Wrapped string go_error

fun Error :: "go_error \<Rightarrow> string" where
  "Error (ErrorString m) = m"
| "Error (ContextError Canceled) = ''context canceled''"
| "Error (ContextError DeadlineExceeded) = ''context deadline exceeded''"
| "Error (Wrapped m e) = m"

fun Unwrap :: "go_error \<Rightarrow> go_error option" where
  "Unwrap (Wrapped m e) = Some e"
| "Unwrap e = None"

text \<open>
  \<open>errors.Is(err, target)\<close>: \<open>err\<close> or an error in its \<open>Unwrap\<close> chain is \<open>target\<close>. Go
  compares two \<open>errors.New\<close> values by identity, the model by message: where \<open>errors_Is\<close> is
  false here, \<open>errors.Is\<close> is false in Go.
\<close>

fun errors_Is :: "go_error \<Rightarrow> go_error \<Rightarrow> bool" where
  "errors_Is (Wrapped m e) target = (Wrapped m e = target \<or> errors_Is e target)"
| "errors_Is err target = (err = target)"

section \<open>The type float64\<close>

text \<open>
  A \<open>float64\<close> is a finite value, an infinity or NaN; the sign of a zero is not
  distinguished (no operation used below depends on it). A finite result is rounded to the
  nearest value with a 53-bit significand, a tie to the even significand: \<open>ulp_exp x\<close> is
  the exponent of the last place of the values around \<open>x\<close> (down to \<open>2 ^ - 1074\<close>, the
  subnormal spacing), and a result beyond the largest finite value is an infinity. Every
  operation rounds its own result, as the compiler has it on amd64; where the compiler fuses
  \<open>x * y + z\<close> into one rounding (arm64), the sum in \<open>calculateNextInterval\<close> may differ
  in its last place.
\<close>

datatype float64 = Finite real | PosInf | NegInf | NaN

definition pow2 :: "int \<Rightarrow> real" where
  "pow2 k = 2 powr real_of_int k"

definition rne :: "real \<Rightarrow> int" where
  "rne x =
     (let f = \<lfloor>x\<rfloor>; d = x - real_of_int f
      in if d < 1 / 2 then f else if 1 / 2 < d then f + 1 else if even f then f else f + 1)"

definition ulp_exp :: "real \<Rightarrow> int" where
  "ulp_exp x = max \<lfloor>log 2 \<bar>x\<bar>\<rfloor> (- 1022) - 52"

definition rne64 :: "real \<Rightarrow> real" where
  "rne64 x = real_of_int (rne (x / pow2 (ulp_exp x))) * pow2 (ulp_exp x)"

definition MaxFloat64 :: real where
  "MaxFloat64 = 2 ^ 1024 - 2 ^ 971"

definition round64 :: "real \<Rightarrow> float64" where
  "round64 x =
     (let y = rne64 x
      in if MaxFloat64 < y then PosInf else if y < - MaxFloat64 then NegInf else Finite y)"

fun fneg :: "float64 \<Rightarrow> float64" where
  "fneg (Finite x) = Finite (- x)"
| "fneg PosInf = NegInf"
| "fneg NegInf = PosInf"
| "fneg NaN = NaN"

fun fadd :: "float64 \<Rightarrow> float64 \<Rightarrow> float64" where
  "fadd (Finite x) (Finite y) = round64 (x + y)"
| "fadd NaN b = NaN"
| "fadd a NaN = NaN"
| "fadd PosInf NegInf = NaN"
| "fadd NegInf PosInf = NaN"
| "fadd PosInf b = PosInf"
| "fadd a PosInf = PosInf"
| "fadd NegInf b = NegInf"
| "fadd a NegInf = NegInf"

definition fsub :: "float64 \<Rightarrow> float64 \<Rightarrow> float64" where
  "fsub a b = fadd a (fneg b)"

fun fmul :: "float64 \<Rightarrow> float64 \<Rightarrow> float64" where
  "fmul (Finite x) (Finite y) = round64 (x * y)"
| "fmul NaN b = NaN"
| "fmul a NaN = NaN"
| "fmul (Finite x) b = (if x = 0 then NaN else if (0 < x) = (b = PosInf) then PosInf else NegInf)"
| "fmul a (Finite y) = (if y = 0 then NaN else if (0 < y) = (a = PosInf) then PosInf else NegInf)"
| "fmul a b = (if a = b then PosInf else NegInf)"

text \<open>
  \<open>math.Min\<close>: negative infinity if either argument is, else NaN if either argument is.
\<close>

fun math_Min :: "float64 \<Rightarrow> float64 \<Rightarrow> float64" where
  "math_Min NegInf y = NegInf"
| "math_Min x NegInf = NegInf"
| "math_Min NaN y = NaN"
| "math_Min x NaN = NaN"
| "math_Min PosInf y = y"
| "math_Min x PosInf = x"
| "math_Min (Finite x) (Finite y) = Finite (min x y)"

text \<open>The conversion \<open>float64(n)\<close> of an \<open>int64\<close>.\<close>

definition float64_of_int :: "int \<Rightarrow> float64" where
  "float64_of_int n = round64 (real_of_int n)"

text \<open>
  The conversion \<open>time.Duration(x)\<close> of a \<open>float64\<close> to \<open>int64\<close>: the fraction is discarded.
  For a value \<open>int64\<close> cannot represent (an infinity, NaN, or beyond \<open>2 ^ 63\<close>) the result
  depends on the implementation: \<open>impl\<close> gives it. On amd64 it is the smallest \<open>int64\<close>.
\<close>

definition Duration :: "(float64 \<Rightarrow> int) \<Rightarrow> float64 \<Rightarrow> int" where
  "Duration impl f =
     (case f of
        Finite x \<Rightarrow>
          (let t = (if 0 \<le> x then \<lfloor>x\<rfloor> else \<lceil>x\<rceil>)
           in if - (2 ^ 63) \<le> t \<and> t < 2 ^ 63 then t else impl f)
      | _ \<Rightarrow> impl f)"

definition amd64_conversion :: "float64 \<Rightarrow> int" where
  "amd64_conversion f = - (2 ^ 63)"

section \<open>Package retry\<close>

text \<open>
  \<open>time.Duration\<close> is a count of nanoseconds, an \<open>int64\<close>; the model's \<open>int\<close> is unbounded,
  and a statement that depends on the range says so.
\<close>

record Config =
  MaxAttempts :: int
  InitialInterval :: int
  MaxInterval :: int
  Multiplier :: float64
  RandomizationFactor :: float64

definition Millisecond :: int where
  "Millisecond = 1000000"

definition Second :: int where
  "Second = 1000 * Millisecond"

definition DefaultConfig :: Config where
  "DefaultConfig = \<lparr>MaxAttempts = 3, InitialInterval = 100 * Millisecond,
     MaxInterval = 10 * Second, Multiplier = Finite 2.0, RandomizationFactor = Finite 0.5\<rparr>"

definition ErrMaxRetriesReached :: go_error where
  "ErrMaxRetriesReached = ErrorString ''max retries reached''"

text \<open>
  The local variables \<open>minInterval\<close> and \<open>maxInterval\<close> of \<open>calculateNextInterval\<close>.
\<close>

definition jitterBand :: "int \<Rightarrow> Config \<Rightarrow> float64 \<times> float64" where
  "jitterBand currentInterval config =
     (let interval = fmul (float64_of_int currentInterval) (Multiplier config);
          delta = fmul (RandomizationFactor config) interval;
          minInterval = fsub interval delta;
          maxInterval = fadd interval delta
      in (minInterval, maxInterval))"

text \<open>
  The value of \<open>interval\<close> in \<open>calculateNextInterval\<close> after the random draw and before
  \<open>math.Min\<close>; \<open>r\<close> is the value \<open>rand.Float64()\<close> returns, a number in \<open>[0, 1)\<close>.
\<close>

definition jitteredInterval :: "real \<Rightarrow> int \<Rightarrow> Config \<Rightarrow> float64" where
  "jitteredInterval r currentInterval config =
     (let (minInterval, maxInterval) = jitterBand currentInterval config
      in fadd minInterval (fmul (Finite r) (fadd (fsub maxInterval minInterval) (Finite 1))))"

definition calculateNextInterval ::
  "(float64 \<Rightarrow> int) \<Rightarrow> real \<Rightarrow> int \<Rightarrow> int \<Rightarrow> Config \<Rightarrow> int" where
  "calculateNextInterval impl r currentInterval attempt config =
     (let interval = jitteredInterval r currentInterval config;
          interval = math_Min interval (float64_of_int (MaxInterval config))
      in Duration impl interval)"

text \<open>
  What one call of \<open>Do\<close> or \<open>DoWithContext\<close> does besides returning: the number of times it
  has invoked the operation, and the durations it has waited for (\<open>time.Sleep\<close>, or the
  timer of \<open>DoWithContext\<close>), in order.
\<close>

record Trace =
  calls :: nat
  waits :: "int list"

text \<open>The statements after the loop: a non-nil \<open>err\<close> is returned with the marker appended.\<close>

definition after_loop :: "go_error option \<Rightarrow> go_error option" where
  "after_loop err =
     (case err of
        Some e \<Rightarrow> Some (ErrorString (Error e @ '': '' @ Error ErrMaxRetriesReached))
      | None \<Rightarrow> None)"

text \<open>
  The loop of \<open>Do\<close>. The operation is a closure; \<open>fn k\<close> is what its \<open>k\<close>-th invocation
  returns, and \<open>rnd k\<close> is the random number drawn after attempt \<open>k\<close> has failed.
\<close>

function Do_loop ::
  "(float64 \<Rightarrow> int) \<Rightarrow> (int \<Rightarrow> go_error option) \<Rightarrow> (int \<Rightarrow> real) \<Rightarrow> Config \<Rightarrow> int \<Rightarrow> int \<Rightarrow>
     go_error option \<Rightarrow> Trace \<Rightarrow> go_error option \<times> Trace" where
  "Do_loop impl fn rnd config attempt nextInterval err tr =
     (if attempt \<le> MaxAttempts config then
        (case fn attempt of
           None \<Rightarrow> (None, tr\<lparr>calls := Suc (calls tr)\<rparr>)
         | Some e \<Rightarrow>
             if attempt = MaxAttempts config
             then (after_loop (Some e), tr\<lparr>calls := Suc (calls tr)\<rparr>)
             else
               (let next = calculateNextInterval impl (rnd attempt) nextInterval attempt config
                in Do_loop impl fn rnd config (attempt + 1) next (Some e)
                     (tr\<lparr>calls := Suc (calls tr), waits := waits tr @ [next]\<rparr>)))
      else (after_loop err, tr))"
  by pat_completeness auto
termination
  by (relation "measure (\<lambda>(impl, fn, rnd, config, attempt, rest). nat (MaxAttempts config - attempt + 1))")
    auto

declare Do_loop.simps [simp del]

definition Do ::
  "(float64 \<Rightarrow> int) \<Rightarrow> (int \<Rightarrow> go_error option) \<Rightarrow> (int \<Rightarrow> real) \<Rightarrow> Config \<Rightarrow>
     go_error option \<times> Trace" where
  "Do impl fn rnd config =
     Do_loop impl fn rnd config 1 (InitialInterval config) None \<lparr>calls = 0, waits = []\<rparr>"

text \<open>
  A \<open>context.Context\<close> as \<open>DoWithContext\<close> observes it: whether \<open>ctx.Done()\<close> is ready at the
  check before attempt \<open>k\<close>, whether the \<open>select\<close> of the wait after attempt \<open>k\<close> takes the
  \<open>ctx.Done()\<close> case rather than the timer's, and what \<open>ctx.Err()\<close> then returns.
\<close>

record Context =
  done_before :: "int \<Rightarrow> bool"
  done_in_wait :: "int \<Rightarrow> bool"
  Err :: go_error

function DoWithContext_loop ::
  "(float64 \<Rightarrow> int) \<Rightarrow> Context \<Rightarrow> (int \<Rightarrow> go_error option) \<Rightarrow> (int \<Rightarrow> real) \<Rightarrow> Config \<Rightarrow>
     int \<Rightarrow> int \<Rightarrow> go_error option \<Rightarrow> Trace \<Rightarrow> go_error option \<times> Trace" where
  "DoWithContext_loop impl ctx fn rnd config attempt nextInterval err tr =
     (if attempt \<le> MaxAttempts config then
        if done_before ctx attempt then (Some (Err ctx), tr)
        else
          (case fn attempt of
             None \<Rightarrow> (None, tr\<lparr>calls := Suc (calls tr)\<rparr>)
           | Some e \<Rightarrow>
               if attempt = MaxAttempts config
               then (after_loop (Some e), tr\<lparr>calls := Suc (calls tr)\<rparr>)
               else
                 (let next = calculateNextInterval impl (rnd attempt) nextInterval attempt config;
                      tr' = tr\<lparr>calls := Suc (calls tr), waits := waits tr @ [next]\<rparr>
                  in if done_in_wait ctx attempt then (Some (Err ctx), tr')
                     else DoWithContext_loop impl ctx fn rnd config (attempt + 1) next (Some e) tr'))
      else (after_loop err, tr))"
  by pat_completeness auto
termination
  by (relation "measure (\<lambda>(impl, ctx, fn, rnd, config, attempt, rest). nat (MaxAttempts config - attempt + 1))")
    auto

declare DoWithContext_loop.simps [simp del]

definition DoWithContext ::
  "(float64 \<Rightarrow> int) \<Rightarrow> Context \<Rightarrow> (int \<Rightarrow> go_error option) \<Rightarrow> (int \<Rightarrow> real) \<Rightarrow> Config \<Rightarrow>
     go_error option \<times> Trace" where
  "DoWithContext impl ctx fn rnd config =
     DoWithContext_loop impl ctx fn rnd config 1 (InitialInterval config) None
       \<lparr>calls = 0, waits = []\<rparr>"

section \<open>Package healthcheck\<close>

text \<open>
  \<open>Status\<close> is a Go string type with the two constants below; a check may return any
  string, and \<open>RunChecks\<close> only compares it with \<open>StatusDown\<close>.
\<close>

type_synonym Status = string

definition StatusUp :: Status where
  "StatusUp = ''UP''"

definition StatusDown :: Status where
  "StatusDown = ''DOWN''"

text \<open>
  The interface \<open>Check\<close>: \<open>Name()\<close>, and \<open>Execute(ctx)\<close>, which returns a status and an
  error (\<open>None\<close> for nil). The context type is left open.
\<close>

record 'ctx Check =
  Name :: string
  Execute :: "'ctx \<Rightarrow> Status \<times> go_error option"

record Result =
  Result_Name :: string
  Result_Status :: Status
  Result_Error :: string

record AggregateResult =
  Status :: Status
  Details :: "string \<rightharpoonup> Result"

record 'ctx Checker =
  checks :: "'ctx Check list"

definition NewChecker :: "'ctx Checker" where
  "NewChecker = \<lparr>checks = []\<rparr>"

definition AddCheck :: "'ctx Check \<Rightarrow> 'ctx Checker \<Rightarrow> 'ctx Checker" where
  "AddCheck check c = c\<lparr>checks := checks c @ [check]\<rparr>"

text \<open>
  The \<open>Result\<close> the loop body of \<open>RunChecks\<close> builds for one check: name and status, and
  the error's message when \<open>Execute\<close> returned an error.
\<close>

definition check_result :: "'ctx \<Rightarrow> 'ctx Check \<Rightarrow> Result" where
  "check_result ctx check =
     (let (status, err) = Execute check ctx;
          result = \<lparr>Result_Name = Name check, Result_Status = status, Result_Error = ''''\<rparr>
      in case err of None \<Rightarrow> result | Some e \<Rightarrow> result\<lparr>Result_Error := Error e\<rparr>)"

text \<open>
  The loop over \<open>c.checks\<close>, in registration order. \<open>Details\<close> is a Go map: the
  assignment \<open>Details[check.Name()] = result\<close> replaces an entry of the same name.
\<close>

fun RunChecks_loop :: "'ctx \<Rightarrow> 'ctx Check list \<Rightarrow> AggregateResult \<Rightarrow> AggregateResult" where
  "RunChecks_loop ctx [] aggregateResult = aggregateResult"
| "RunChecks_loop ctx (check # rest) aggregateResult =
     (let result = check_result ctx check;
          aggregateResult = aggregateResult\<lparr>Details := (Details aggregateResult)(Name check \<mapsto> result)\<rparr>;
          aggregateResult =
            (if Result_Status result = StatusDown then aggregateResult\<lparr>Status := StatusDown\<rparr>
             else aggregateResult)
      in RunChecks_loop ctx rest aggregateResult)"

definition RunChecks :: "'ctx \<Rightarrow> 'ctx Checker \<Rightarrow> AggregateResult" where
  "RunChecks ctx c =
     (let aggregateResult = \<lparr>Status = StatusUp, Details = Map.empty\<rparr>
      in if length (checks c) = 0 then aggregateResult
         else RunChecks_loop ctx (checks c) aggregateResult)"

section \<open>Package monitors\<close>

text \<open>
  The \<open>context.Context\<close> argument of the methods below is only handed on and is left out.
  Label maps are maps from string to string.
\<close>

definition ErrMonitoringSystemUnavailable :: go_error where
  "ErrMonitoringSystemUnavailable = ErrorString ''monitoring system is unavailable''"

datatype MetricType = CounterType | GaugeType | HistogramType

text \<open>
  The interface \<open>Monitor\<close> over the state \<open>'p\<close> of the backend that implements it: a
  method returns its result together with the backend's new state.
\<close>

record 'p Monitor =
  Counter :: "string \<Rightarrow> float64 \<Rightarrow> (string \<rightharpoonup> string) \<Rightarrow> 'p \<Rightarrow> go_error option \<times> 'p"
  Gauge :: "string \<Rightarrow> float64 \<Rightarrow> (string \<rightharpoonup> string) \<Rightarrow> 'p \<Rightarrow> go_error option \<times> 'p"
  Histogram :: "string \<Rightarrow> float64 \<Rightarrow> (string \<rightharpoonup> string) \<Rightarrow> 'p \<Rightarrow> go_error option \<times> 'p"
  IsHealthy :: "'p \<Rightarrow> (bool \<times> go_error option) \<times> 'p"

text \<open>
  The interface \<open>FallbackStrategy\<close>, over the state \<open>'f\<close> of the strategy.
\<close>

record 'f FallbackStrategy =
  HandleFailure :: "string \<Rightarrow> MetricType \<Rightarrow> float64 \<Rightarrow> (string \<rightharpoonup> string) \<Rightarrow> 'f \<Rightarrow> go_error option \<times> 'f"
  IsEnabled :: "'f \<Rightarrow> bool"

text \<open>
  \<open>fallbackStrategy\<close> is \<open>None\<close> for a nil strategy, \<open>healthCheckTicker\<close> is \<open>None\<close>
  for a nil ticker and holds the ticker's period otherwise.
\<close>

record ('p, 'f) MonitorWithFallback =
  primaryMonitor :: 'p
  fallbackStrategy :: "'f option"
  healthCheckTicker :: "int option"
  isHealthy :: bool
  periodicCheck :: int

text \<open>
  The constructor starts the ticker and the goroutine \<open>periodicHealthCheck\<close> only for a
  positive \<open>periodicCheck\<close>.
\<close>

definition NewMonitorWithFallback :: "'p \<Rightarrow> 'f option \<Rightarrow> int \<Rightarrow> ('p, 'f) MonitorWithFallback" where
  "NewMonitorWithFallback primary fallback period =
     \<lparr>primaryMonitor = primary, fallbackStrategy = fallback,
      healthCheckTicker = (if period > 0 then Some period else None),
      isHealthy = True, periodicCheck = period\<rparr>"

text \<open>
  One iteration of the loop of \<open>periodicHealthCheck\<close>: the primary monitor's own health
  check decides \<open>isHealthy\<close>; its error is dropped.
\<close>

definition periodicHealthCheck_tick ::
  "'p Monitor \<Rightarrow> ('p, 'f) MonitorWithFallback \<Rightarrow> ('p, 'f) MonitorWithFallback" where
  "periodicHealthCheck_tick P m =
     (let ((healthy, err), p) = IsHealthy P (primaryMonitor m)
      in m\<lparr>primaryMonitor := p, isHealthy := healthy\<rparr>)"

text \<open>
  The last statements of \<open>Counter\<close>, \<open>Gauge\<close> and \<open>Histogram\<close>, which are the same in the
  three methods but for the metric type.
\<close>

definition use_fallback ::
  "'f FallbackStrategy \<Rightarrow> string \<Rightarrow> MetricType \<Rightarrow> float64 \<Rightarrow> (string \<rightharpoonup> string) \<Rightarrow>
     ('p, 'f) MonitorWithFallback \<Rightarrow> go_error option \<times> ('p, 'f) MonitorWithFallback" where
  "use_fallback F name metricType val labels m =
     (case fallbackStrategy m of
        None \<Rightarrow> (Some ErrMonitoringSystemUnavailable, m)
      | Some f \<Rightarrow>
          if IsEnabled F f
          then (let (r, f') = HandleFailure F name metricType val labels f
                in (r, m\<lparr>fallbackStrategy := Some f'\<rparr>))
          else (Some ErrMonitoringSystemUnavailable, m))"

definition MonitorWithFallback_Counter ::
  "'p Monitor \<Rightarrow> 'f FallbackStrategy \<Rightarrow> string \<Rightarrow> float64 \<Rightarrow> (string \<rightharpoonup> string) \<Rightarrow>
     ('p, 'f) MonitorWithFallback \<Rightarrow> go_error option \<times> ('p, 'f) MonitorWithFallback" where
  "MonitorWithFallback_Counter P F name val labels m =
     (if isHealthy m then
        (case Counter P name val labels (primaryMonitor m) of
           (None, p) \<Rightarrow> (None, m\<lparr>primaryMonitor := p\<rparr>)
         | (Some err, p) \<Rightarrow>
             use_fallback F name CounterType val labels (m\<lparr>primaryMonitor := p, isHealthy := False\<rparr>))
      else use_fallback F name CounterType val labels m)"

definition MonitorWithFallback_Gauge ::
  "'p Monitor \<Rightarrow> 'f FallbackStrategy \<Rightarrow> string \<Rightarrow> float64 \<Rightarrow> (string \<rightharpoonup> string) \<Rightarrow>
     ('p, 'f) MonitorWithFallback \<Rightarrow> go_error option \<times> ('p, 'f) MonitorWithFallback" where
  "MonitorWithFallback_Gauge P F name val labels m =
     (if isHealthy m then
        (case Gauge P name val labels (primaryMonitor m) of
           (None, p) \<Rightarrow> (None, m\<lparr>primaryMonitor := p\<rparr>)
         | (Some err, p) \<Rightarrow>
             use_fallback F name GaugeType val labels (m\<lparr>primaryMonitor := p, isHealthy := False\<rparr>))
      else use_fallback F name GaugeType val labels m)"

definition MonitorWithFallback_Histogram ::
  "'p Monitor \<Rightarrow> 'f FallbackStrategy \<Rightarrow> string \<Rightarrow> float64 \<Rightarrow> (string \<rightharpoonup> string) \<Rightarrow>
     ('p, 'f) MonitorWithFallback \<Rightarrow> go_error option \<times> ('p, 'f) MonitorWithFallback" where
  "MonitorWithFallback_Histogram P F name val labels m =
     (if isHealthy m then
        (case Histogram P name val labels (primaryMonitor m) of
           (None, p) \<Rightarrow> (None, m\<lparr>primaryMonitor := p\<rparr>)
         | (Some err, p) \<Rightarrow>
             use_fallback F name HistogramType val labels (m\<lparr>primaryMonitor := p, isHealthy := False\<rparr>))
      else use_fallback F name HistogramType val labels m)"

text \<open>
  What happens to a \<open>MonitorWithFallback\<close> over time: calls of its three write methods and
  ticks of its ticker, one after the other (a call is one step: the model does not interleave
  the lock regions of concurrent calls). A tick runs the loop body of \<open>periodicHealthCheck\<close>,
  and there is none when no ticker was created.
\<close>

datatype event =
  CounterCall string float64 "string \<rightharpoonup> string"
| GaugeCall string float64 "string \<rightharpoonup> string"
| HistogramCall string float64 "string \<rightharpoonup> string"
| Tick

fun step ::
  "'p Monitor \<Rightarrow> 'f FallbackStrategy \<Rightarrow> ('p, 'f) MonitorWithFallback \<Rightarrow> event \<Rightarrow>
     ('p, 'f) MonitorWithFallback" where
  "step P F m (CounterCall name val labels) = snd (MonitorWithFallback_Counter P F name val labels m)"
| "step P F m (GaugeCall name val labels) = snd (MonitorWithFallback_Gauge P F name val labels m)"
| "step P F m (HistogramCall name val labels) = snd (MonitorWithFallback_Histogram P F name val labels m)"
| "step P F m Tick =
     (case healthCheckTicker m of None \<Rightarrow> m | Some period \<Rightarrow> periodicHealthCheck_tick P m)"

record MetricData =
  MetricData_Name :: string
  Type :: MetricType
  Value :: float64
  Labels :: "string \<rightharpoonup> string"
  Timestamp :: int

text \<open>
  What \<open>LocalLoggingFallback\<close> has written to its logger, oldest first: \<open>Warnf\<close>,
  \<open>Errorf\<close>, and \<open>WithField("metrics_count", n).Info(data)\<close>.
\<close>

datatype log_entry = WarnEntry string | ErrorEntry string | InfoEntry nat string

record LocalLoggingFallback =
  enabled :: bool
  logger :: "log_entry list"
  buffer :: "MetricData list"
  maxSize :: int

text \<open>
  \<open>openErr\<close> is the error of \<open>os.OpenFile\<close> (consulted for a non-empty \<open>logPath\<close>).
  \<open>make([]MetricData, 0, maxBufferSize)\<close> does not return for a negative capacity (it
  panics) or for one above \<open>maxAlloc\<close>, the largest capacity the runtime can allocate:
  \<open>None\<close>.
\<close>

definition NewLocalLoggingFallback ::
  "int \<Rightarrow> bool \<Rightarrow> string \<Rightarrow> go_error option \<Rightarrow> int \<Rightarrow> LocalLoggingFallback option" where
  "NewLocalLoggingFallback maxAlloc enabled' logPath openErr maxBufferSize =
     (let logger' =
            (if logPath \<noteq> '''' then
               (case openErr of
                  None \<Rightarrow> []
                | Some err \<Rightarrow> [WarnEntry (''Failed to log to file, using default stderr: '' @ Error err)])
             else [])
      in if maxBufferSize < 0 \<or> maxAlloc < maxBufferSize then None
         else Some \<lparr>enabled = enabled', logger = logger', buffer = [], maxSize = maxBufferSize\<rparr>)"

definition LocalLoggingFallback_IsEnabled :: "LocalLoggingFallback \<Rightarrow> bool" where
  "LocalLoggingFallback_IsEnabled l = enabled l"

text \<open>
  \<open>marshal\<close> is \<open>json.Marshal\<close> on the buffer, which returns the encoding or an error
  (it does for a value that is NaN or infinite). On an error the buffer is left as it is.
\<close>

definition flushBuffer ::
  "(MetricData list \<Rightarrow> go_error + string) \<Rightarrow> LocalLoggingFallback \<Rightarrow> LocalLoggingFallback" where
  "flushBuffer marshal l =
     (if length (buffer l) = 0 then l
      else
        (case marshal (buffer l) of
           Inl err \<Rightarrow>
             l\<lparr>logger := logger l @ [ErrorEntry (''Failed to marshal metrics buffer: '' @ Error err)]\<rparr>
         | Inr data \<Rightarrow>
             l\<lparr>logger := logger l @ [InfoEntry (length (buffer l)) data], buffer := []\<rparr>))"

text \<open>
  \<open>now\<close> is the reading of \<open>time.Now()\<close>, in nanoseconds.
\<close>

definition LocalLoggingFallback_HandleFailure ::
  "(MetricData list \<Rightarrow> go_error + string) \<Rightarrow> int \<Rightarrow> string \<Rightarrow> MetricType \<Rightarrow> float64 \<Rightarrow>
     (string \<rightharpoonup> string) \<Rightarrow> LocalLoggingFallback \<Rightarrow> go_error option \<times> LocalLoggingFallback" where
  "LocalLoggingFallback_HandleFailure marshal now metricName metricType val labels l =
     (if \<not> enabled l then (None, l)
      else
        (let metricData = \<lparr>MetricData_Name = metricName, Type = metricType, Value = val,
                            Labels = labels, Timestamp = now\<rparr>;
             l = (if int (length (buffer l)) \<ge> maxSize l then flushBuffer marshal l else l)
         in (None, l\<lparr>buffer := buffer l @ [metricData]\<rparr>)))"

definition Flush ::
  "(MetricData list \<Rightarrow> go_error + string) \<Rightarrow> LocalLoggingFallback \<Rightarrow> LocalLoggingFallback" where
  "Flush marshal l = flushBuffer marshal l"


section \<open>Inputs of the examples\<close>

text \<open>
  The policy of the specification's retry scenario.
\<close>

definition scenario_policy :: Config where
  "scenario_policy = \<lparr>MaxAttempts = 3, InitialInterval = 100 * Millisecond,
     MaxInterval = 1 * Second, Multiplier = Finite 2.0, RandomizationFactor = Finite 0\<rparr>"

text \<open>
  The band the specification gives for the \<open>k\<close>-th retry, in its own words: within
  \<open>\<plusminus>jitterFactor\<close> of \<open>initialInterval * multiplier ^ k\<close>.
\<close>

definition spec_within_jitter_band :: "Config \<Rightarrow> nat \<Rightarrow> real \<Rightarrow> bool" where
  "spec_within_jitter_band config k x =
     (case (Multiplier config, RandomizationFactor config) of
        (Finite m, Finite j) \<Rightarrow>
          (let v = real_of_int (InitialInterval config) * m ^ k
           in v * (1 - j) \<le> x \<and> x \<le> v * (1 + j))
      | _ \<Rightarrow> False)"

definition jitter_policy :: Config where
  "jitter_policy = \<lparr>MaxAttempts = 4, InitialInterval = 100 * Millisecond,
     MaxInterval = 1 * Second, Multiplier = Finite 2.0, RandomizationFactor = Finite 0.5\<rparr>"

text \<open>
  Two policies at the edge of \<open>float64\<close>: a ceiling that \<open>float64\<close> cannot represent
  (\<open>2 ^ 53 + 3\<close> nanoseconds), and a multiplier whose first product overflows.
\<close>

definition coarse_policy :: Config where
  "coarse_policy = \<lparr>MaxAttempts = 2, InitialInterval = 2 ^ 53,
     MaxInterval = 2 ^ 53 + 3, Multiplier = Finite 2.0, RandomizationFactor = Finite 0\<rparr>"

definition overflow_policy :: Config where
  "overflow_policy = \<lparr>MaxAttempts = 2, InitialInterval = 100 * Millisecond,
     MaxInterval = 1 * Second, Multiplier = Finite (2 ^ 1000), RandomizationFactor = Finite 0.5\<rparr>"

text \<open>
  A malformed policy in the specification's words: a non-positive interval, a multiplier of
  at most 1, or a jitter factor outside \<open>[0, 1]\<close>.
\<close>

definition spec_ConfigInvalid :: "Config \<Rightarrow> bool" where
  "spec_ConfigInvalid config =
     (InitialInterval config \<le> 0 \<or> MaxInterval config \<le> 0 \<or>
      (case Multiplier config of Finite m \<Rightarrow> m \<le> 1 | NegInf \<Rightarrow> True | _ \<Rightarrow> False) \<or>
      (case RandomizationFactor config of Finite j \<Rightarrow> j < 0 \<or> 1 < j | _ \<Rightarrow> True))"

definition malformed_policy :: Config where
  "malformed_policy = \<lparr>MaxAttempts = 2, InitialInterval = - 5, MaxInterval = - 1,
     Multiplier = Finite 0.5, RandomizationFactor = Finite 2\<rparr>"

text \<open>
  Two checkers: one whose two checks share a name, one with two checks of different names.
\<close>

definition duplicate_checks :: "unit Checker" where
  "duplicate_checks =
     AddCheck \<lparr>Name = ''db'', Execute = \<lambda>ctx. (StatusUp, None)\<rparr>
       (AddCheck \<lparr>Name = ''db'', Execute = \<lambda>ctx. (StatusDown, Some (ErrorString ''refused''))\<rparr>
          NewChecker)"

definition distinct_checks :: "unit Checker" where
  "distinct_checks =
     AddCheck \<lparr>Name = ''cache'', Execute = \<lambda>ctx. (StatusUp, None)\<rparr>
       (AddCheck \<lparr>Name = ''db'', Execute = \<lambda>ctx. (StatusDown, Some (ErrorString ''refused''))\<rparr>
          NewChecker)"

text \<open>
  A counter point of value 1, and a monitor whose primary backend refuses every write
  (its state counts the writes it has received), with a local logging fallback and
  \<open>periodicCheck = 0\<close>; and that monitor after one counter call.
\<close>

definition point :: "string \<Rightarrow> MetricData" where
  "point n =
     \<lparr>MetricData_Name = n, Type = CounterType, Value = Finite 1, Labels = Map.empty, Timestamp = 0\<rparr>"

definition failing_primary :: "nat Monitor" where
  "failing_primary =
     \<lparr>Counter = \<lambda>name val labels p. (Some (ErrorString ''connection refused''), Suc p),
      Gauge = \<lambda>name val labels p. (Some (ErrorString ''connection refused''), Suc p),
      Histogram = \<lambda>name val labels p. (Some (ErrorString ''connection refused''), Suc p),
      IsHealthy = \<lambda>p. ((False, None), p)\<rparr>"

definition logging_strategy :: "LocalLoggingFallback FallbackStrategy" where
  "logging_strategy =
     \<lparr>HandleFailure = LocalLoggingFallback_HandleFailure (\<lambda>b. Inr ''[]'') 0,
      IsEnabled = LocalLoggingFallback_IsEnabled\<rparr>"

definition unprobed_monitor :: "(nat, LocalLoggingFallback) MonitorWithFallback" where
  "unprobed_monitor =
     NewMonitorWithFallback 0 (Some \<lparr>enabled = True, logger = [], buffer = [], maxSize = 1000\<rparr>) 0"

definition degraded_monitor :: "(nat, LocalLoggingFallback) MonitorWithFallback" where
  "degraded_monitor =
     snd (MonitorWithFallback_Counter failing_primary logging_strategy ''requests'' (Finite 1)
            Map.empty unprobed_monitor)"

text \<open>
  A primary backend that refuses every write but reports itself healthy, and a degraded
  monitor over it whose ticker runs every 30 seconds.
\<close>

definition recovered_primary :: "nat Monitor" where
  "recovered_primary =
     \<lparr>Counter = \<lambda>name val labels p. (Some (ErrorString ''connection refused''), Suc p),
      Gauge = \<lambda>name val labels p. (Some (ErrorString ''connection refused''), Suc p),
      Histogram = \<lambda>name val labels p. (Some (ErrorString ''connection refused''), Suc p),
      IsHealthy = \<lambda>p. ((True, None), p)\<rparr>"

definition probed_monitor :: "(nat, LocalLoggingFallback) MonitorWithFallback" where
  "probed_monitor =
     snd (MonitorWithFallback_Counter recovered_primary logging_strategy ''requests'' (Finite 1)
            Map.empty
            (NewMonitorWithFallback 0
               (Some \<lparr>enabled = True, logger = [], buffer = [], maxSize = 1000\<rparr>) (30 * Second)))"

section \<open>Properties of the rounding\<close>

subsection \<open>Powers of two and rounding to an integer\<close>

lemma pow2_pos [simp]: "0 < pow2 k"
  by (simp add: pow2_def)

lemma pow2_ge0 [simp]: "0 \<le> pow2 k"
  by (rule less_imp_le [OF pow2_pos])

lemma pow2_nz [simp]: "pow2 k \<noteq> 0"
  by (simp add: pow2_def)

lemma pow2_add: "pow2 (a + b) = pow2 a * pow2 b"
  by (simp add: pow2_def powr_add)

lemma pow2_0 [simp]: "pow2 0 = 1"
  by (simp add: pow2_def)

lemma pow2_nat: "pow2 (int n) = 2 ^ n"
  by (simp add: pow2_def powr_realpow)

lemma pow2_mono: "a \<le> b \<Longrightarrow> pow2 a \<le> pow2 b"
  by (simp add: pow2_def powr_mono)

lemma pow2_less: "a < b \<Longrightarrow> pow2 a < pow2 b"
  by (simp add: pow2_def powr_less_mono)

lemma pow2_diff_int:
  assumes "a \<le> b"
  shows "pow2 b / pow2 a = real_of_int (2 ^ nat (b - a))"
proof -
  have "pow2 b = pow2 (a + int (nat (b - a)))" using assms by simp
  also have "\<dots> = pow2 a * 2 ^ nat (b - a)" by (simp only: pow2_add pow2_nat)
  finally show ?thesis by simp
qed

lemma rne_of_int [simp]: "rne (real_of_int n) = n"
  by (simp add: rne_def)

lemma rne_mono:
  assumes "x \<le> y"
  shows "rne x \<le> rne y"
proof -
  have fx: "real_of_int \<lfloor>x\<rfloor> \<le> x" "x < real_of_int \<lfloor>x\<rfloor> + 1" by linarith+
  have fy: "real_of_int \<lfloor>y\<rfloor> \<le> y" "y < real_of_int \<lfloor>y\<rfloor> + 1" by linarith+
  have le: "\<lfloor>x\<rfloor> \<le> \<lfloor>y\<rfloor>" using assms by (rule floor_mono)
  show ?thesis
  proof (cases "\<lfloor>x\<rfloor> = \<lfloor>y\<rfloor>")
    case True
    then show ?thesis using assms by (auto simp add: rne_def Let_def)
  next
    case False
    with le have "\<lfloor>x\<rfloor> + 1 \<le> \<lfloor>y\<rfloor>" by simp
    moreover have "rne x \<le> \<lfloor>x\<rfloor> + 1" by (simp add: rne_def Let_def)
    moreover have "\<lfloor>y\<rfloor> \<le> rne y" by (simp add: rne_def Let_def)
    ultimately show ?thesis by linarith
  qed
qed

lemma rne_minus: "rne (- x) = - rne x"
proof (cases "x = real_of_int \<lfloor>x\<rfloor>")
  case True
  then have "rne x = \<lfloor>x\<rfloor>" by (metis rne_of_int)
  moreover have "rne (- x) = - \<lfloor>x\<rfloor>" by (metis True of_int_minus rne_of_int)
  ultimately show ?thesis by simp
next
  case False
  have fx: "real_of_int \<lfloor>x\<rfloor> \<le> x" "x < real_of_int \<lfloor>x\<rfloor> + 1" by linarith+
  with False have lt: "real_of_int \<lfloor>x\<rfloor> < x" by linarith
  have fl: "\<lfloor>- x\<rfloor> = - \<lfloor>x\<rfloor> - 1"
  proof (intro floor_unique)
    have "real_of_int (- \<lfloor>x\<rfloor> - 1) = - real_of_int \<lfloor>x\<rfloor> - 1" by simp
    then show "real_of_int (- \<lfloor>x\<rfloor> - 1) \<le> - x" using fx(2) by linarith
    have "real_of_int (- \<lfloor>x\<rfloor> - 1) + 1 = - real_of_int \<lfloor>x\<rfloor>" by simp
    then show "- x < real_of_int (- \<lfloor>x\<rfloor> - 1) + 1" using lt by linarith
  qed
  show ?thesis
    unfolding rne_def Let_def fl using lt fx(2) by (auto simp add: algebra_simps)
qed

subsection \<open>Rounding to 53 bits\<close>

lemma abs_pow2 [simp]: "\<bar>pow2 k\<bar> = pow2 k"
  by (simp add: pow2_def)

lemma rne_0 [simp]: "rne 0 = 0"
  using rne_of_int [of 0] by simp

lemma ulp_exp_minus [simp]: "ulp_exp (- x) = ulp_exp x"
  by (simp add: ulp_exp_def)

lemma ulp_exp_ge: "- 1074 \<le> ulp_exp x"
  by (simp add: ulp_exp_def)

lemma floor_log2_bounds:
  assumes "x \<noteq> 0"
  shows "pow2 \<lfloor>log 2 \<bar>x\<bar>\<rfloor> \<le> \<bar>x\<bar>" and "\<bar>x\<bar> < pow2 (\<lfloor>log 2 \<bar>x\<bar>\<rfloor> + 1)"
proof -
  have "0 < \<bar>x\<bar>" using assms by simp
  from floor_log_eq_powr_iff [OF this, of 2 "\<lfloor>log 2 \<bar>x\<bar>\<rfloor>"]
  have "2 powr real_of_int \<lfloor>log 2 \<bar>x\<bar>\<rfloor> \<le> \<bar>x\<bar> \<and> \<bar>x\<bar> < 2 powr real_of_int (\<lfloor>log 2 \<bar>x\<bar>\<rfloor> + 1)"
    by simp
  then show "pow2 \<lfloor>log 2 \<bar>x\<bar>\<rfloor> \<le> \<bar>x\<bar>" and "\<bar>x\<bar> < pow2 (\<lfloor>log 2 \<bar>x\<bar>\<rfloor> + 1)"
    by (simp_all add: pow2_def)
qed

lemma floor_log2_le:
  assumes "x \<noteq> 0" "\<bar>x\<bar> < pow2 (k + 1)"
  shows "\<lfloor>log 2 \<bar>x\<bar>\<rfloor> \<le> k"
proof (rule ccontr)
  assume "\<not> \<lfloor>log 2 \<bar>x\<bar>\<rfloor> \<le> k"
  then have "k + 1 \<le> \<lfloor>log 2 \<bar>x\<bar>\<rfloor>" by simp
  then have "pow2 (k + 1) \<le> pow2 \<lfloor>log 2 \<bar>x\<bar>\<rfloor>" by (rule pow2_mono)
  with floor_log2_bounds(1) [OF assms(1)] assms(2) show False by linarith
qed

lemma floor_log2_ge:
  assumes "pow2 k \<le> \<bar>x\<bar>"
  shows "k \<le> \<lfloor>log 2 \<bar>x\<bar>\<rfloor>"
proof (rule ccontr)
  assume "\<not> k \<le> \<lfloor>log 2 \<bar>x\<bar>\<rfloor>"
  then have "\<lfloor>log 2 \<bar>x\<bar>\<rfloor> + 1 \<le> k" by simp
  then have "pow2 (\<lfloor>log 2 \<bar>x\<bar>\<rfloor> + 1) \<le> pow2 k" by (rule pow2_mono)
  moreover have "0 < \<bar>x\<bar>" by (rule less_le_trans [OF pow2_pos assms])
  then have "x \<noteq> 0" by simp
  ultimately show False using floor_log2_bounds(2) [of x] assms by linarith
qed

text \<open>A value divided by the unit of its last place is below \<open>2 ^ 53\<close> in size.\<close>

lemma scaled_less:
  assumes "x \<noteq> 0"
  shows "\<bar>x\<bar> / pow2 (ulp_exp x) < 2 ^ 53"
proof -
  have "\<lfloor>log 2 \<bar>x\<bar>\<rfloor> + 1 \<le> ulp_exp x + 53" by (simp add: ulp_exp_def)
  then have "pow2 (\<lfloor>log 2 \<bar>x\<bar>\<rfloor> + 1) \<le> pow2 (ulp_exp x + 53)" by (rule pow2_mono)
  with floor_log2_bounds(2) [OF assms] have "\<bar>x\<bar> < pow2 (ulp_exp x + 53)" by linarith
  also have "\<dots> = pow2 (ulp_exp x) * 2 ^ 53"
    using pow2_add [of "ulp_exp x" "int 53"] pow2_nat [of 53] by simp
  finally show ?thesis by (simp add: field_simps)
qed

lemma rne_abs_le:
  assumes "\<bar>x\<bar> \<le> real_of_int n"
  shows "\<bar>rne x\<bar> \<le> n"
proof -
  have "rne x \<le> rne (real_of_int n)" using assms by (intro rne_mono) linarith
  moreover have "rne (real_of_int (- n)) \<le> rne x" using assms by (intro rne_mono) simp
  ultimately show ?thesis by (simp del: of_int_minus)
qed

lemma rne64_0 [simp]: "rne64 0 = 0"
  by (simp add: rne64_def)

lemma rne64_minus: "rne64 (- x) = - rne64 x"
  by (simp add: rne64_def rne_minus)

text \<open>Every value with a significand of at most 53 bits and an exponent in range is kept.\<close>

lemma rne64_exact:
  assumes "\<bar>n\<bar> \<le> 2 ^ 53" "- 1074 \<le> k"
  shows "rne64 (real_of_int n * pow2 k) = real_of_int n * pow2 k"
proof (cases "n = 0")
  case True
  then show ?thesis by simp
next
  case False
  let ?x = "real_of_int n * pow2 k"
  let ?e = "ulp_exp ?x"
  have x0: "?x \<noteq> 0" using False by simp
  have ax: "\<bar>?x\<bar> = real_of_int \<bar>n\<bar> * pow2 k" by (simp add: abs_mult)
  have "\<exists>j. ?x = real_of_int j * pow2 ?e"
  proof (cases "?e \<le> k")
    case True
    define e where "e = ?e"
    define m where "m = nat (k - e)"
    have "pow2 k / pow2 e = real_of_int (2 ^ m)"
      using pow2_diff_int [of e k] True by (simp add: e_def m_def)
    then have "pow2 k = real_of_int (2 ^ m) * pow2 e" by (simp add: field_simps)
    then have "real_of_int n * pow2 k = real_of_int n * (real_of_int (2 ^ m) * pow2 e)"
      by (rule arg_cong)
    then have "real_of_int n * pow2 k = real_of_int (n * 2 ^ m) * pow2 e" by simp
    then show ?thesis unfolding e_def by blast
  next
    case False
    then have gt: "k < ?e" by simp
    with assms(2) have "- 1074 < ?e" by simp
    then have e: "?e = \<lfloor>log 2 \<bar>?x\<bar>\<rfloor> - 52" by (simp add: ulp_exp_def max_def split: if_splits)
    with gt have "k + 53 \<le> \<lfloor>log 2 \<bar>?x\<bar>\<rfloor>" by simp
    then have "pow2 (k + 53) \<le> pow2 \<lfloor>log 2 \<bar>?x\<bar>\<rfloor>" by (rule pow2_mono)
    with floor_log2_bounds(1) [OF x0] have "pow2 (k + 53) \<le> \<bar>?x\<bar>" by linarith
    moreover have p: "pow2 (k + 53) = pow2 k * 2 ^ 53"
      using pow2_add [of k "int 53"] pow2_nat [of 53] by simp
    ultimately have "pow2 k * 2 ^ 53 \<le> real_of_int \<bar>n\<bar> * pow2 k" using ax by simp
    then have "(2::real) ^ 53 \<le> real_of_int \<bar>n\<bar>" by simp
    then have "real_of_int (2 ^ 53) \<le> real_of_int \<bar>n\<bar>" by simp
    then have "(2::int) ^ 53 \<le> \<bar>n\<bar>" by (simp only: of_int_le_iff)
    with assms(1) have n: "\<bar>n\<bar> = 2 ^ 53" by simp
    then have "\<bar>?x\<bar> = pow2 (k + 53)" using ax p by simp
    then have "\<lfloor>log 2 \<bar>?x\<bar>\<rfloor> = k + 53"
      using floor_log2_ge [of "k + 53" ?x] floor_log2_le [OF x0, of "k + 53"]
        pow2_less [of "k + 53" "k + 53 + 1"] by simp
    with e have e': "?e = k + 1" by simp
    have "pow2 (k + 1) = pow2 k * 2" using pow2_add [of k 1] pow2_nat [of 1] by simp
    moreover from n have "n = 2 ^ 53 \<or> n = - (2 ^ 53)" by linarith
    ultimately have "?x = real_of_int (n div 2) * pow2 (k + 1)" by auto
    with e' show ?thesis by metis
  qed
  then obtain j where j: "?x = real_of_int j * pow2 ?e" ..
  then have "?x / pow2 ?e = real_of_int j" by (simp only: nonzero_divide_eq_eq [OF pow2_nz])
  then have "rne64 ?x = real_of_int j * pow2 ?e" by (simp add: rne64_def)
  with j show ?thesis by simp
qed

lemma rne64_idem: "rne64 (rne64 x) = rne64 x"
proof (cases "x = 0")
  case True
  then show ?thesis by simp
next
  case False
  have "\<bar>x / pow2 (ulp_exp x)\<bar> \<le> real_of_int (2 ^ 53)"
    using scaled_less [OF False] by (simp add: abs_divide)
  then have "\<bar>rne (x / pow2 (ulp_exp x))\<bar> \<le> 2 ^ 53" by (rule rne_abs_le)
  from rne64_exact [OF this ulp_exp_ge [of x]] show ?thesis by (simp add: rne64_def)
qed

lemma ulp_exp_mono:
  assumes "0 < x" "x \<le> y"
  shows "ulp_exp x \<le> ulp_exp y"
proof -
  have "log 2 \<bar>x\<bar> \<le> log 2 \<bar>y\<bar>" using assms by (simp add: log_mono)
  then have "\<lfloor>log 2 \<bar>x\<bar>\<rfloor> \<le> \<lfloor>log 2 \<bar>y\<bar>\<rfloor>" by (rule floor_mono)
  then show ?thesis by (simp add: ulp_exp_def)
qed

lemma rne64_nonneg: "0 \<le> x \<Longrightarrow> 0 \<le> rne64 x"
proof -
  assume "0 \<le> x"
  then have "0 \<le> x / pow2 (ulp_exp x)" by (intro divide_nonneg_pos pow2_pos)
  then have "rne 0 \<le> rne (x / pow2 (ulp_exp x))" by (rule rne_mono)
  then show ?thesis by (simp add: rne64_def)
qed

lemma rne64_mono_pos:
  assumes "0 < x" "x \<le> y"
  shows "rne64 x \<le> rne64 y"
proof (cases "ulp_exp x = ulp_exp y")
  case True
  have "x / pow2 (ulp_exp y) \<le> y / pow2 (ulp_exp y)"
    using assms(2) by (intro divide_right_mono less_imp_le [OF pow2_pos])
  then have "rne (x / pow2 (ulp_exp y)) \<le> rne (y / pow2 (ulp_exp y))" by (rule rne_mono)
  then show ?thesis by (simp add: rne64_def True)
next
  case False
  let ?ex = "ulp_exp x" and ?ey = "ulp_exp y"
  from False ulp_exp_mono [OF assms] have lt: "?ex + 1 \<le> ?ey" by simp
  have y0: "y \<noteq> 0" and x0: "x \<noteq> 0" using assms by auto
  \<comment> \<open>the larger value is at least the bottom of its binade\<close>
  from lt ulp_exp_ge [of x] have "- 1074 < ?ey" by simp
  then have ey: "?ey = \<lfloor>log 2 \<bar>y\<bar>\<rfloor> - 52" by (simp add: ulp_exp_def max_def split: if_splits)
  have "pow2 (?ey + 52) \<le> \<bar>y\<bar>" using floor_log2_bounds(1) [OF y0] ey by simp
  moreover have p52: "pow2 (?ey + 52) = pow2 ?ey * 2 ^ 52"
    using pow2_add [of ?ey "int 52"] pow2_nat [of 52] by simp
  ultimately have "real_of_int (2 ^ 52) \<le> y / pow2 ?ey" using assms by (simp add: field_simps)
  then have "rne (real_of_int (2 ^ 52)) \<le> rne (y / pow2 ?ey)" by (rule rne_mono)
  then have "(2::int) ^ 52 \<le> rne (y / pow2 ?ey)" by (simp only: rne_of_int)
  then have "real_of_int (2 ^ 52) \<le> real_of_int (rne (y / pow2 ?ey))" by (simp only: of_int_le_iff)
  then have "real_of_int (2 ^ 52) * pow2 ?ey \<le> rne64 y"
    unfolding rne64_def by (intro mult_right_mono) simp_all
  then have big: "pow2 (?ey + 52) \<le> rne64 y" using p52 by (simp add: mult.commute)
  \<comment> \<open>the smaller value rounds to at most the top of its binade\<close>
  have "x / pow2 ?ex \<le> real_of_int (2 ^ 53)" using scaled_less [OF x0] assms(1) by simp
  then have "rne (x / pow2 ?ex) \<le> rne (real_of_int (2 ^ 53))" by (rule rne_mono)
  then have "rne (x / pow2 ?ex) \<le> 2 ^ 53" by (simp only: rne_of_int)
  then have "real_of_int (rne (x / pow2 ?ex)) \<le> real_of_int (2 ^ 53)" by (simp only: of_int_le_iff)
  then have "rne64 x \<le> real_of_int (2 ^ 53) * pow2 ?ex"
    unfolding rne64_def by (intro mult_right_mono) simp_all
  moreover have "pow2 (?ex + 53) = pow2 ?ex * 2 ^ 53"
    using pow2_add [of ?ex "int 53"] pow2_nat [of 53] by simp
  ultimately have small: "rne64 x \<le> pow2 (?ex + 53)" by (simp add: mult.commute)
  have "pow2 (?ex + 53) \<le> pow2 (?ey + 52)" using lt by (intro pow2_mono) simp
  with small big show ?thesis by linarith
qed

lemma rne64_mono:
  assumes "x \<le> y"
  shows "rne64 x \<le> rne64 y"
proof -
  consider "0 < x" | "x \<le> 0" "0 \<le> y" | "y < 0" by linarith
  then show ?thesis
  proof cases
    case 1
    then show ?thesis using assms by (rule rne64_mono_pos)
  next
    case 2
    have "0 \<le> rne64 (- x)" using 2(1) by (intro rne64_nonneg) simp
    then have "rne64 x \<le> 0" by (simp add: rne64_minus)
    moreover have "0 \<le> rne64 y" using 2(2) by (rule rne64_nonneg)
    ultimately show ?thesis by linarith
  next
    case 3
    have "rne64 (- y) \<le> rne64 (- x)" using 3 assms by (intro rne64_mono_pos) simp_all
    then show ?thesis by (simp add: rne64_minus)
  qed
qed

lemma rne64_of_int:
  assumes "\<bar>n\<bar> \<le> 2 ^ 53"
  shows "rne64 (real_of_int n) = real_of_int n"
  using rne64_exact [OF assms, of 0] by simp

lemma rne64_half:
  assumes "\<bar>n\<bar> \<le> 2 ^ 53"
  shows "rne64 (real_of_int n / 2) = real_of_int n / 2"
proof -
  have "pow2 (- 1) = 1 / 2" by (simp add: pow2_def powr_minus)
  with rne64_exact [OF assms, of "- 1"] show ?thesis by simp
qed

lemma rne64_pow2_nat: "rne64 (2 ^ n) = 2 ^ n"
  using rne64_exact [of 1 "int n"] by (simp add: pow2_nat)

subsection \<open>Rounding to a float64\<close>

lemma MaxFloat64_ge: "2 ^ 1023 \<le> MaxFloat64"
  by (simp add: MaxFloat64_def)

lemma round64_Finite:
  assumes "\<bar>x\<bar> \<le> 2 ^ 1023"
  shows "round64 x = Finite (rne64 x)"
proof -
  have e: "rne64 (2 ^ 1023) = 2 ^ 1023" by (rule rne64_pow2_nat)
  have "rne64 x \<le> rne64 (2 ^ 1023)" using assms by (intro rne64_mono) simp
  moreover have "rne64 (- (2 ^ 1023)) \<le> rne64 x" using assms by (intro rne64_mono) simp
  ultimately have "rne64 x \<le> MaxFloat64" "- MaxFloat64 \<le> rne64 x"
    using e MaxFloat64_ge by (simp_all add: rne64_minus)
  then show ?thesis by (simp add: round64_def Let_def)
qed

lemma round64_of_int:
  assumes "\<bar>n\<bar> \<le> 2 ^ 53"
  shows "round64 (real_of_int n) = Finite (real_of_int n)"
proof -
  have "\<bar>real_of_int n\<bar> \<le> real_of_int (2 ^ 53)" using assms by (simp only: of_int_abs [symmetric] of_int_le_iff)
  then have "\<bar>real_of_int n\<bar> \<le> 2 ^ 1023" by simp
  then show ?thesis by (simp add: round64_Finite rne64_of_int [OF assms])
qed

lemma round64_half:
  assumes "\<bar>n\<bar> \<le> 2 ^ 53"
  shows "round64 (real_of_int n / 2) = Finite (real_of_int n / 2)"
proof -
  have "\<bar>real_of_int n\<bar> \<le> real_of_int (2 ^ 53)" using assms by (simp only: of_int_abs [symmetric] of_int_le_iff)
  then have "\<bar>real_of_int n / 2\<bar> \<le> 2 ^ 1023" by simp
  then show ?thesis by (simp add: round64_Finite rne64_half [OF assms])
qed

lemma round64_0 [simp]: "round64 0 = Finite 0"
  using round64_of_int [of 0] by simp

lemma round64_1 [simp]: "round64 1 = Finite 1"
  using round64_of_int [of 1] by simp

lemma round64_numeral [simp]:
  "numeral k \<le> (9007199254740992::int) \<Longrightarrow> round64 (numeral k) = Finite (numeral k)"
  using round64_of_int [of "numeral k"] by simp

lemma round64_neg_numeral [simp]:
  "numeral k \<le> (9007199254740992::int) \<Longrightarrow> round64 (- numeral k) = Finite (- numeral k)"
  using round64_of_int [of "- numeral k"] by simp

lemma round64_numeral_half [simp]:
  "numeral k \<le> (9007199254740992::int) \<Longrightarrow> round64 (numeral k / 2) = Finite (numeral k / 2)"
  using round64_half [of "numeral k"] by simp

lemma round64_neg_numeral_half [simp]:
  "numeral k \<le> (9007199254740992::int) \<Longrightarrow> round64 (- (numeral k / 2)) = Finite (- (numeral k / 2))"
  using round64_half [of "- numeral k"] by simp

section \<open>Properties of package retry\<close>

subsection \<open>One iteration of the loops\<close>

lemma Do_loop_exit:
  "\<not> attempt \<le> MaxAttempts config \<Longrightarrow>
   Do_loop impl fn rnd config attempt nextInterval err tr = (after_loop err, tr)"
  by (simp add: Do_loop.simps)

lemma Do_loop_success:
  "attempt \<le> MaxAttempts config \<Longrightarrow> fn attempt = None \<Longrightarrow>
   Do_loop impl fn rnd config attempt nextInterval err tr = (None, tr\<lparr>calls := Suc (calls tr)\<rparr>)"
  by (simp add: Do_loop.simps)

lemma Do_loop_last:
  "attempt = MaxAttempts config \<Longrightarrow> fn attempt = Some e \<Longrightarrow>
   Do_loop impl fn rnd config attempt nextInterval err tr
     = (after_loop (Some e), tr\<lparr>calls := Suc (calls tr)\<rparr>)"
  by (simp add: Do_loop.simps)

lemma Do_loop_retry:
  "attempt < MaxAttempts config \<Longrightarrow> fn attempt = Some e \<Longrightarrow>
   Do_loop impl fn rnd config attempt nextInterval err tr
     = Do_loop impl fn rnd config (attempt + 1)
         (calculateNextInterval impl (rnd attempt) nextInterval attempt config) (Some e)
         (tr\<lparr>calls := Suc (calls tr),
             waits := waits tr @ [calculateNextInterval impl (rnd attempt) nextInterval attempt config]\<rparr>)"
  by (subst Do_loop.simps) (simp add: Let_def)

lemma DoWithContext_loop_exit:
  "\<not> attempt \<le> MaxAttempts config \<Longrightarrow>
   DoWithContext_loop impl ctx fn rnd config attempt nextInterval err tr = (after_loop err, tr)"
  by (simp add: DoWithContext_loop.simps)

lemma DoWithContext_loop_done_before:
  "attempt \<le> MaxAttempts config \<Longrightarrow> done_before ctx attempt \<Longrightarrow>
   DoWithContext_loop impl ctx fn rnd config attempt nextInterval err tr = (Some (Err ctx), tr)"
  by (simp add: DoWithContext_loop.simps)

lemma DoWithContext_loop_success:
  "attempt \<le> MaxAttempts config \<Longrightarrow> \<not> done_before ctx attempt \<Longrightarrow> fn attempt = None \<Longrightarrow>
   DoWithContext_loop impl ctx fn rnd config attempt nextInterval err tr
     = (None, tr\<lparr>calls := Suc (calls tr)\<rparr>)"
  by (simp add: DoWithContext_loop.simps)

lemma DoWithContext_loop_last:
  "attempt = MaxAttempts config \<Longrightarrow> \<not> done_before ctx attempt \<Longrightarrow> fn attempt = Some e \<Longrightarrow>
   DoWithContext_loop impl ctx fn rnd config attempt nextInterval err tr
     = (after_loop (Some e), tr\<lparr>calls := Suc (calls tr)\<rparr>)"
  by (simp add: DoWithContext_loop.simps)

lemma DoWithContext_loop_done_in_wait:
  "attempt < MaxAttempts config \<Longrightarrow> \<not> done_before ctx attempt \<Longrightarrow> fn attempt = Some e \<Longrightarrow>
   done_in_wait ctx attempt \<Longrightarrow>
   DoWithContext_loop impl ctx fn rnd config attempt nextInterval err tr
     = (Some (Err ctx),
        tr\<lparr>calls := Suc (calls tr),
           waits := waits tr @ [calculateNextInterval impl (rnd attempt) nextInterval attempt config]\<rparr>)"
  by (subst DoWithContext_loop.simps) (simp add: Let_def)

lemma DoWithContext_loop_retry:
  "attempt < MaxAttempts config \<Longrightarrow> \<not> done_before ctx attempt \<Longrightarrow> fn attempt = Some e \<Longrightarrow>
   \<not> done_in_wait ctx attempt \<Longrightarrow>
   DoWithContext_loop impl ctx fn rnd config attempt nextInterval err tr
     = DoWithContext_loop impl ctx fn rnd config (attempt + 1)
         (calculateNextInterval impl (rnd attempt) nextInterval attempt config) (Some e)
         (tr\<lparr>calls := Suc (calls tr),
             waits := waits tr @ [calculateNextInterval impl (rnd attempt) nextInterval attempt config]\<rparr>)"
  by (subst DoWithContext_loop.simps) (simp add: Let_def)

subsection \<open>A context that is never done\<close>

lemma never_cancelled_eq_Do:
  assumes "\<And>k. \<not> done_before ctx k" "\<And>k. \<not> done_in_wait ctx k"
  shows "DoWithContext_loop impl ctx fn rnd config attempt nextInterval err tr
       = Do_loop impl fn rnd config attempt nextInterval err tr"
proof (induction impl fn rnd config attempt nextInterval err tr rule: Do_loop.induct)
  case (1 impl fn rnd config attempt nextInterval err tr)
  show ?case
  proof (cases "attempt \<le> MaxAttempts config")
    case False
    then show ?thesis by (simp add: Do_loop.simps DoWithContext_loop.simps)
  next
    case le: True
    show ?thesis
    proof (cases "fn attempt")
      case None
      with le assms show ?thesis by (simp add: Do_loop.simps DoWithContext_loop.simps)
    next
      case (Some e)
      show ?thesis
      proof (cases "attempt = MaxAttempts config")
        case True
        with Some assms show ?thesis by (simp add: Do_loop.simps DoWithContext_loop.simps)
      next
        case False
        from "1.IH" [OF le Some False refl]
        show ?thesis using le Some False assms
          by (subst Do_loop.simps, subst DoWithContext_loop.simps) (simp add: Let_def)
      qed
    qed
  qed
qed

lemma Do_loop_as_DoWithContext_loop:
  "Do_loop impl fn rnd config attempt nextInterval err tr =
   DoWithContext_loop impl \<lparr>done_before = \<lambda>k. False, done_in_wait = \<lambda>k. False, Err = ContextError Canceled\<rparr>
     fn rnd config attempt nextInterval err tr"
  by (rule never_cancelled_eq_Do [symmetric]) simp_all

subsection \<open>Counting the invocations\<close>

lemma DoWithContext_loop_calls_le:
  "int (calls (snd (DoWithContext_loop impl ctx fn rnd config attempt nextInterval err tr)))
     \<le> int (calls tr) + max 0 (MaxAttempts config - attempt + 1)"
proof (induction impl ctx fn rnd config attempt nextInterval err tr rule: DoWithContext_loop.induct)
  case (1 impl ctx fn rnd config attempt nextInterval err tr)
  show ?case
  proof (cases "attempt \<le> MaxAttempts config \<and> \<not> done_before ctx attempt")
    case False
    then show ?thesis by (auto simp add: DoWithContext_loop.simps)
  next
    case True
    then have le: "attempt \<le> MaxAttempts config" and nd: "\<not> done_before ctx attempt" by auto
    show ?thesis
    proof (cases "fn attempt")
      case None
      with le nd show ?thesis by (simp add: DoWithContext_loop.simps)
    next
      case (Some e)
      show ?thesis
      proof (cases "attempt = MaxAttempts config")
        case True
        with Some nd show ?thesis by (simp add: DoWithContext_loop.simps)
      next
        case ne: False
        show ?thesis
        proof (cases "done_in_wait ctx attempt")
          case True
          with le nd Some ne show ?thesis
            by (subst DoWithContext_loop.simps) (simp add: Let_def)
        next
          case False
          from "1.IH" [OF le nd Some ne refl refl False]
          show ?thesis using le nd Some ne False
            by (subst DoWithContext_loop.simps) (simp add: Let_def)
        qed
      qed
    qed
  qed
qed

lemma DoWithContext_loop_calls_mono:
  "calls tr \<le> calls (snd (DoWithContext_loop impl ctx fn rnd config attempt nextInterval err tr))"
proof (induction impl ctx fn rnd config attempt nextInterval err tr rule: DoWithContext_loop.induct)
  case (1 impl ctx fn rnd config attempt nextInterval err tr)
  show ?case
  proof (cases "attempt \<le> MaxAttempts config")
    case False
    then show ?thesis by (simp add: DoWithContext_loop_exit)
  next
    case le: True
    show ?thesis
    proof (cases "done_before ctx attempt")
      case True
      with le show ?thesis by (simp add: DoWithContext_loop_done_before)
    next
      case nd: False
      show ?thesis
      proof (cases "fn attempt")
        case None
        with le nd show ?thesis by (simp add: DoWithContext_loop_success)
      next
        case (Some e)
        show ?thesis
        proof (cases "attempt = MaxAttempts config")
          case True
          with Some nd show ?thesis by (simp add: DoWithContext_loop_last [where e = e])
        next
          case ne: False
          with le have lt: "attempt < MaxAttempts config" by simp
          show ?thesis
          proof (cases "done_in_wait ctx attempt")
            case True
            with lt nd Some show ?thesis
              by (simp add: DoWithContext_loop_done_in_wait [where e = e])
          next
            case False
            from "1.IH" [OF le nd Some ne refl refl False]
            show ?thesis using lt nd Some False
              by (simp add: DoWithContext_loop_retry [where e = e])
          qed
        qed
      qed
    qed
  qed
qed

lemma DoWithContext_loop_calls_ge_Suc:
  assumes "attempt \<le> MaxAttempts config" "\<not> done_before ctx attempt"
  shows "Suc (calls tr) \<le> calls (snd (DoWithContext_loop impl ctx fn rnd config attempt nextInterval err tr))"
proof (cases "fn attempt")
  case None
  with assms show ?thesis by (simp add: DoWithContext_loop_success)
next
  case (Some e)
  show ?thesis
  proof (cases "attempt = MaxAttempts config")
    case True
    with Some assms show ?thesis by (simp add: DoWithContext_loop_last [where e = e])
  next
    case False
    with assms have lt: "attempt < MaxAttempts config" by simp
    show ?thesis
    proof (cases "done_in_wait ctx attempt")
      case True
      with lt assms Some show ?thesis
        by (simp add: DoWithContext_loop_done_in_wait [where e = e])
    next
      case False
      have "calls (tr\<lparr>calls := Suc (calls tr),
             waits := waits tr @ [calculateNextInterval impl (rnd attempt) nextInterval attempt config]\<rparr>)
          \<le> calls (snd (DoWithContext_loop impl ctx fn rnd config (attempt + 1)
               (calculateNextInterval impl (rnd attempt) nextInterval attempt config) (Some e)
               (tr\<lparr>calls := Suc (calls tr),
             waits := waits tr @ [calculateNextInterval impl (rnd attempt) nextInterval attempt config]\<rparr>)))"
        by (rule DoWithContext_loop_calls_mono)
      then show ?thesis using lt assms Some False
        by (simp add: DoWithContext_loop_retry [where e = e])
    qed
  qed
qed

lemma Do_loop_calls_ge_Suc:
  assumes "attempt \<le> MaxAttempts config"
  shows "Suc (calls tr) \<le> calls (snd (Do_loop impl fn rnd config attempt nextInterval err tr))"
  unfolding Do_loop_as_DoWithContext_loop
  using assms by (intro DoWithContext_loop_calls_ge_Suc) simp_all

subsection \<open>What the loops return\<close>

lemma after_loop_Some:
  "after_loop (Some e) = Some (ErrorString (Error e @ '': '' @ Error ErrMaxRetriesReached))"
  by (simp add: after_loop_def)

lemma after_loop_differs: "after_loop (Some e) \<noteq> Some e"
  by (cases e) (simp_all add: after_loop_def ErrMaxRetriesReached_def)

lemma Do_loop_all_fail:
  "attempt \<le> MaxAttempts config \<Longrightarrow>
   (\<And>k. attempt \<le> k \<Longrightarrow> k < MaxAttempts config \<Longrightarrow> fn k \<noteq> None) \<Longrightarrow>
   fn (MaxAttempts config) = Some e \<Longrightarrow>
   fst (Do_loop impl fn rnd config attempt nextInterval err tr) = after_loop (Some e) \<and>
   int (calls (snd (Do_loop impl fn rnd config attempt nextInterval err tr)))
     = int (calls tr) + (MaxAttempts config - attempt + 1)"
proof (induction impl fn rnd config attempt nextInterval err tr rule: Do_loop.induct)
  case (1 impl fn rnd config attempt nextInterval err tr)
  show ?case
  proof (cases "attempt = MaxAttempts config")
    case True
    with "1.prems" show ?thesis by (simp add: Do_loop_last)
  next
    case False
    with "1.prems" have lt: "attempt < MaxAttempts config" by simp
    with "1.prems" obtain e' where e': "fn attempt = Some e'" by fastforce
    have "fst (Do_loop impl fn rnd config (attempt + 1)
              (calculateNextInterval impl (rnd attempt) nextInterval attempt config) (Some e')
              (tr\<lparr>calls := Suc (calls tr),
                 waits := waits tr @ [calculateNextInterval impl (rnd attempt) nextInterval attempt config]\<rparr>))
           = after_loop (Some e) \<and>
          int (calls (snd (Do_loop impl fn rnd config (attempt + 1)
              (calculateNextInterval impl (rnd attempt) nextInterval attempt config) (Some e')
              (tr\<lparr>calls := Suc (calls tr),
                 waits := waits tr @ [calculateNextInterval impl (rnd attempt) nextInterval attempt config]\<rparr>))))
           = int (calls (tr\<lparr>calls := Suc (calls tr),
                 waits := waits tr @ [calculateNextInterval impl (rnd attempt) nextInterval attempt config]\<rparr>))
              + (MaxAttempts config - (attempt + 1) + 1)"
      using "1.prems" lt by (intro "1.IH" [OF _ e' False refl]) auto
    then show ?thesis using lt e' by (simp add: Do_loop_retry)
  qed
qed

lemma Do_loop_result_shape:
  "fst (Do_loop impl fn rnd config attempt nextInterval err tr) = None \<or>
   fst (Do_loop impl fn rnd config attempt nextInterval err tr) = after_loop err \<or>
   (\<exists>k e. fn k = Some e \<and> fst (Do_loop impl fn rnd config attempt nextInterval err tr) = after_loop (Some e))"
proof (induction impl fn rnd config attempt nextInterval err tr rule: Do_loop.induct)
  case (1 impl fn rnd config attempt nextInterval err tr)
  show ?case
  proof (cases "attempt \<le> MaxAttempts config")
    case False
    then show ?thesis by (simp add: Do_loop_exit)
  next
    case le: True
    show ?thesis
    proof (cases "fn attempt")
      case None
      with le show ?thesis by (simp add: Do_loop_success)
    next
      case (Some e)
      show ?thesis
      proof (cases "attempt = MaxAttempts config")
        case True
        with Some have "fst (Do_loop impl fn rnd config attempt nextInterval err tr) = after_loop (Some e)"
          by (simp add: Do_loop_last)
        with Some show ?thesis by blast
      next
        case False
        with le have lt: "attempt < MaxAttempts config" by simp
        from "1.IH" [OF le Some False refl] Some
        show ?thesis
          unfolding Do_loop_retry [of attempt config fn e impl rnd nextInterval err tr, OF lt Some]
          by blast
      qed
    qed
  qed
qed

lemma DoWithContext_loop_result_shape:
  "fst (DoWithContext_loop impl ctx fn rnd config attempt nextInterval err tr) = None \<or>
   fst (DoWithContext_loop impl ctx fn rnd config attempt nextInterval err tr) = Some (Err ctx) \<or>
   fst (DoWithContext_loop impl ctx fn rnd config attempt nextInterval err tr) = after_loop err \<or>
   (\<exists>k e. fn k = Some e \<and>
      fst (DoWithContext_loop impl ctx fn rnd config attempt nextInterval err tr) = after_loop (Some e))"
proof (induction impl ctx fn rnd config attempt nextInterval err tr rule: DoWithContext_loop.induct)
  case (1 impl ctx fn rnd config attempt nextInterval err tr)
  show ?case
  proof (cases "attempt \<le> MaxAttempts config")
    case False
    then show ?thesis by (simp add: DoWithContext_loop_exit)
  next
    case le: True
    show ?thesis
    proof (cases "done_before ctx attempt")
      case True
      with le show ?thesis by (simp add: DoWithContext_loop_done_before)
    next
      case nd: False
      show ?thesis
      proof (cases "fn attempt")
        case None
        with le nd show ?thesis by (simp add: DoWithContext_loop_success)
      next
        case (Some e)
        show ?thesis
        proof (cases "attempt = MaxAttempts config")
          case True
          with Some nd
          have "fst (DoWithContext_loop impl ctx fn rnd config attempt nextInterval err tr)
                  = after_loop (Some e)"
            by (simp add: DoWithContext_loop_last [where e = e])
          with Some show ?thesis by blast
        next
          case ne: False
          with le have lt: "attempt < MaxAttempts config" by simp
          show ?thesis
          proof (cases "done_in_wait ctx attempt")
            case True
            with lt nd Some show ?thesis
              by (simp add: DoWithContext_loop_done_in_wait [where e = e])
          next
            case False
            from "1.IH" [OF le nd Some ne refl refl False] Some
            show ?thesis
              unfolding DoWithContext_loop_retry
                [of attempt config ctx fn e impl rnd nextInterval err tr, OF lt nd Some False]
              by blast
          qed
        qed
      qed
    qed
  qed
qed

subsection \<open>Failed attempts before a cancellation\<close>

text \<open>\<open>n\<close> failed, uncancelled attempts in a row, none of them the last.\<close>

lemma DoWithContext_loop_prefix:
  "(\<And>j. attempt \<le> j \<Longrightarrow> j < attempt + int n \<Longrightarrow>
      j < MaxAttempts config \<and> \<not> done_before ctx j \<and> fn j \<noteq> None \<and> \<not> done_in_wait ctx j) \<Longrightarrow>
   \<exists>next e ws.
     DoWithContext_loop impl ctx fn rnd config attempt nextInterval err tr
       = DoWithContext_loop impl ctx fn rnd config (attempt + int n) next e
           \<lparr>calls = calls tr + n, waits = waits tr @ ws\<rparr> \<and> length ws = n"
proof (induction n arbitrary: attempt nextInterval err tr)
  case 0
  have "tr = \<lparr>calls = calls tr, waits = waits tr\<rparr>" by simp
  then show ?case by (metis add.right_neutral append_Nil2 list.size(3) of_nat_0)
next
  case (Suc n)
  from Suc.prems [of attempt]
  have a: "attempt < MaxAttempts config" "\<not> done_before ctx attempt" "fn attempt \<noteq> None"
    "\<not> done_in_wait ctx attempt" by auto
  then obtain e where e: "fn attempt = Some e" by auto
  let ?next = "calculateNextInterval impl (rnd attempt) nextInterval attempt config"
  let ?tr = "tr\<lparr>calls := Suc (calls tr), waits := waits tr @ [?next]\<rparr>"
  have step: "DoWithContext_loop impl ctx fn rnd config attempt nextInterval err tr
      = DoWithContext_loop impl ctx fn rnd config (attempt + 1) ?next (Some e) ?tr"
    using a e by (simp add: DoWithContext_loop_retry)
  have "\<And>j. attempt + 1 \<le> j \<Longrightarrow> j < attempt + 1 + int n \<Longrightarrow>
      j < MaxAttempts config \<and> \<not> done_before ctx j \<and> fn j \<noteq> None \<and> \<not> done_in_wait ctx j"
    using Suc.prems by simp
  from Suc.IH [of "attempt + 1" ?next "Some e" ?tr, OF this]
  obtain next' e' ws where
    r: "DoWithContext_loop impl ctx fn rnd config (attempt + 1) ?next (Some e) ?tr
        = DoWithContext_loop impl ctx fn rnd config (attempt + 1 + int n) next' e'
            \<lparr>calls = calls ?tr + n, waits = waits ?tr @ ws\<rparr>"
    and l: "length ws = n" by blast
  have "DoWithContext_loop impl ctx fn rnd config attempt nextInterval err tr
      = DoWithContext_loop impl ctx fn rnd config (attempt + int (Suc n)) next' e'
          \<lparr>calls = calls tr + Suc n, waits = waits tr @ (?next # ws)\<rparr>"
    using step r by (simp add: add.assoc)
  moreover have "length (?next # ws) = Suc n" using l by simp
  ultimately show ?case by blast
qed

subsection \<open>The intervals\<close>

lemma round64_bounded:
  assumes "0 \<le> x" "x \<le> 2 ^ n" "n \<le> 1023"
  shows "round64 x = Finite (rne64 x)" and "0 \<le> rne64 x" and "rne64 x \<le> 2 ^ n"
proof -
  have "(2::real) ^ n \<le> 2 ^ 1023" using assms(3) by (intro power_increasing) simp_all
  then have "\<bar>x\<bar> \<le> 2 ^ 1023" using assms(1,2) by linarith
  then show "round64 x = Finite (rne64 x)" by (rule round64_Finite)
  show "0 \<le> rne64 x" using assms(1) by (rule rne64_nonneg)
  have "rne64 x \<le> rne64 (2 ^ n)" using assms(2) by (rule rne64_mono)
  then show "rne64 x \<le> 2 ^ n" by (simp add: rne64_pow2_nat)
qed

lemma rne64_le_fixed: "x \<le> rne64 y \<Longrightarrow> rne64 x \<le> rne64 y"
  using rne64_mono [of x "rne64 y"] by (simp add: rne64_idem)

lemma rne64_ge_fixed: "rne64 y \<le> x \<Longrightarrow> rne64 y \<le> rne64 x"
  using rne64_mono [of "rne64 y" x] by (simp add: rne64_idem)

text \<open>The values \<open>calculateNextInterval\<close> computes when nothing overflows.\<close>

lemma jitter_values:
  assumes m: "Multiplier config = Finite m" "0 \<le> m" "m \<le> 2 ^ 900"
    and j: "RandomizationFactor config = Finite j" "0 \<le> j" "j \<le> 1"
    and p: "0 \<le> p" "p \<le> 2 ^ 63"
    and r: "0 \<le> r" "r \<le> 1"
  shows "\<exists>iv lo hi x top.
     fmul (float64_of_int p) (Multiplier config) = Finite iv \<and>
     jitterBand p config = (Finite lo, Finite hi) \<and>
     jitteredInterval r p config = Finite x \<and>
     fadd (Finite lo) (fadd (fsub (Finite hi) (Finite lo)) (Finite 1)) = Finite top \<and>
     0 \<le> lo \<and> lo \<le> iv \<and> iv \<le> hi \<and> lo \<le> x \<and> x \<le> top"
proof -
  define a where "a = rne64 (real_of_int p)"
  define iv where "iv = rne64 (a * m)"
  define d where "d = rne64 (j * iv)"
  define lo where "lo = rne64 (iv - d)"
  define hi where "hi = rne64 (iv + d)"
  define dd where "dd = rne64 (hi - lo)"
  define w where "w = rne64 (dd + 1)"
  define rw where "rw = rne64 (r * w)"
  define x where "x = rne64 (lo + rw)"
  define top where "top = rne64 (lo + w)"
  have "real_of_int p \<le> real_of_int (2 ^ 63)" using p(2) by (simp only: of_int_le_iff)
  then have p': "0 \<le> real_of_int p" "real_of_int p \<le> 2 ^ 63" using p(1) by simp_all
  note A = round64_bounded [OF p' , folded a_def]
  have "a * m \<le> 2 ^ 63 * 2 ^ 900" using A(2,3) m(2,3) by (intro mult_mono) simp_all
  then have am: "0 \<le> a * m" "a * m \<le> 2 ^ 963" using A(2) m(2) by simp_all
  note I = round64_bounded [OF am, folded iv_def]
  have "j * iv \<le> 1 * iv" using j(3) I(2) by (intro mult_right_mono) simp_all
  then have ji: "0 \<le> j * iv" "j * iv \<le> 2 ^ 963" "j * iv \<le> iv" using j(2) I(2,3) by simp_all
  note D = round64_bounded [OF ji(1,2), folded d_def]
  have d_le: "d \<le> iv" unfolding d_def using ji(3) unfolding iv_def by (rule rne64_le_fixed)
  have lo': "0 \<le> iv - d" "iv - d \<le> 2 ^ 963" using d_le D(2) I(3) by simp_all
  note LO = round64_bounded [OF lo', folded lo_def]
  have lo_le: "lo \<le> iv" unfolding lo_def using D(2) unfolding iv_def by (intro rne64_le_fixed) simp
  have "iv + d \<le> 2 ^ 963 + 2 ^ 963" using I(3) D(3) by linarith
  then have hi': "0 \<le> iv + d" "iv + d \<le> 2 ^ 964" using I(2) D(2) by simp_all
  note HI = round64_bounded [OF hi', folded hi_def]
  have hi_ge: "iv \<le> hi" unfolding hi_def using D(2) unfolding iv_def by (intro rne64_ge_fixed) simp
  have dd': "0 \<le> hi - lo" "hi - lo \<le> 2 ^ 964" using lo_le hi_ge HI(3) LO(2) by simp_all
  note DD = round64_bounded [OF dd', folded dd_def]
  have "dd + 1 \<le> 2 ^ 964 + 2 ^ 964" using DD(3) by simp
  then have w': "0 \<le> dd + 1" "dd + 1 \<le> 2 ^ 965" using DD(2) by simp_all
  note W = round64_bounded [OF w', folded w_def]
  have "r * w \<le> 1 * w" using r(2) W(2) by (intro mult_right_mono) simp_all
  then have rw': "0 \<le> r * w" "r * w \<le> 2 ^ 965" "r * w \<le> w" using r(1) W(2,3) by simp_all
  note RW = round64_bounded [OF rw'(1,2), folded rw_def]
  have rw_le: "rw \<le> w" unfolding rw_def using rw'(3) unfolding w_def by (rule rne64_le_fixed)
  have "lo + w \<le> 2 ^ 963 + 2 ^ 965" using LO(3) W(3) by linarith
  then have t': "0 \<le> lo + w" "lo + w \<le> 2 ^ 966" using LO(2) W(2) by simp_all
  note T = round64_bounded [OF t', folded top_def]
  have x': "0 \<le> lo + rw" "lo + rw \<le> 2 ^ 966" using LO(2) RW(2) rw_le t'(2) by simp_all
  note X = round64_bounded [OF x', folded x_def]
  have x_ge: "lo \<le> x" unfolding x_def using RW(2) unfolding lo_def by (intro rne64_ge_fixed) simp
  have x_le: "x \<le> top" unfolding x_def top_def using rw_le by (intro rne64_mono) simp
  have f1: "float64_of_int p = Finite a" by (simp add: float64_of_int_def A(1))
  have f2: "fmul (float64_of_int p) (Multiplier config) = Finite iv" by (simp add: f1 m(1) I(1))
  have f3: "jitterBand p config = (Finite lo, Finite hi)"
    by (simp add: jitterBand_def Let_def f2 j(1) D(1) fsub_def LO(1) HI(1))
  have f4: "fadd (fsub (Finite hi) (Finite lo)) (Finite 1) = Finite w"
    by (simp add: fsub_def DD(1) W(1))
  have f5: "jitteredInterval r p config = Finite x"
    by (simp add: jitteredInterval_def f3 f4 RW(1) X(1))
  have f6: "fadd (Finite lo) (fadd (fsub (Finite hi) (Finite lo)) (Finite 1)) = Finite top"
    by (simp add: f4 T(1))
  have lo0: "0 \<le> lo" using LO(2) by simp
  show ?thesis using f2 f3 f5 f6 lo0 lo_le hi_ge x_ge x_le by blast
qed

lemma calculateNextInterval_values:
  assumes m: "Multiplier config = Finite m" "0 \<le> m" "m \<le> 2 ^ 900"
    and j: "RandomizationFactor config = Finite j" "0 \<le> j" "j \<le> 1"
    and p: "0 \<le> p" "p \<le> 2 ^ 63"
    and r: "0 \<le> r" "r \<le> 1"
    and M: "0 \<le> MaxInterval config" "MaxInterval config \<le> 2 ^ 53"
  shows "\<exists>x. jitteredInterval r p config = Finite x \<and> 0 \<le> x \<and>
           calculateNextInterval impl r p attempt config
             = \<lfloor>min x (real_of_int (MaxInterval config))\<rfloor>"
    and "0 \<le> calculateNextInterval impl r p attempt config"
    and "calculateNextInterval impl r p attempt config \<le> MaxInterval config"
proof -
  from jitter_values [OF m j p r] obtain lo x where
    x: "jitteredInterval r p config = Finite x" and lo: "0 \<le> lo" "lo \<le> x" by blast
  let ?M = "real_of_int (MaxInterval config)"
  let ?y = "min x ?M"
  have fM: "float64_of_int (MaxInterval config) = Finite ?M"
    using M by (simp add: float64_of_int_def round64_of_int)
  have y: "0 \<le> ?y" "?y \<le> ?M" using lo M(1) by simp_all
  have t0: "0 \<le> \<lfloor>?y\<rfloor>" using y(1) by simp
  have tM: "\<lfloor>?y\<rfloor> \<le> MaxInterval config" using y(2) by (simp add: floor_le_iff)
  have "MaxInterval config < 2 ^ 63" using M(2) by simp
  with tM have t63: "\<lfloor>?y\<rfloor> < 2 ^ 63" by linarith
  have c: "calculateNextInterval impl r p attempt config = \<lfloor>?y\<rfloor>"
    using y(1) t0 t63 by (simp add: calculateNextInterval_def Let_def x fM Duration_def)
  show "\<exists>x. jitteredInterval r p config = Finite x \<and> 0 \<le> x \<and>
           calculateNextInterval impl r p attempt config
             = \<lfloor>min x (real_of_int (MaxInterval config))\<rfloor>"
    using x lo c by (intro exI [of _ x]) simp
  show "0 \<le> calculateNextInterval impl r p attempt config" using c t0 by simp
  show "calculateNextInterval impl r p attempt config \<le> MaxInterval config" using c tM by simp
qed

lemma DoWithContext_loop_waits:
  "\<exists>ws. waits (snd (DoWithContext_loop impl ctx fn rnd config attempt nextInterval err tr)) = waits tr @ ws \<and>
     (\<forall>i < length ws. ws ! i =
        calculateNextInterval impl (rnd (attempt + int i)) (if i = 0 then nextInterval else ws ! (i - 1))
          (attempt + int i) config)"
proof (induction impl ctx fn rnd config attempt nextInterval err tr rule: DoWithContext_loop.induct)
  case (1 impl ctx fn rnd config attempt nextInterval err tr)
  let ?next = "calculateNextInterval impl (rnd attempt) nextInterval attempt config"
  let ?tr = "tr\<lparr>calls := Suc (calls tr), waits := waits tr @ [?next]\<rparr>"
  let ?P = "\<lambda>a cur ws. \<forall>i < length ws. ws ! i =
        calculateNextInterval impl (rnd (a + int i)) (if i = 0 then cur else ws ! (i - 1)) (a + int i) config"
  have single: "?P attempt nextInterval [?next]" by simp
  have stop: "waits (snd (DoWithContext_loop impl ctx fn rnd config attempt nextInterval err tr)) = waits tr
    \<Longrightarrow> ?case" by simp
  show ?case
  proof (cases "attempt \<le> MaxAttempts config \<and> \<not> done_before ctx attempt")
    case False
    then show ?thesis
      by (intro stop, cases "attempt \<le> MaxAttempts config")
        (simp_all add: DoWithContext_loop_exit DoWithContext_loop_done_before)
  next
    case True
    then have le: "attempt \<le> MaxAttempts config" and nd: "\<not> done_before ctx attempt" by auto
    show ?thesis
    proof (cases "fn attempt")
      case None
      with le nd show ?thesis by (intro stop) (simp add: DoWithContext_loop_success)
    next
      case (Some e)
      show ?thesis
      proof (cases "attempt = MaxAttempts config")
        case True
        with Some nd show ?thesis by (intro stop) (simp add: DoWithContext_loop_last [where e = e])
      next
        case ne: False
        with le have lt: "attempt < MaxAttempts config" by simp
        show ?thesis
        proof (cases "done_in_wait ctx attempt")
          case True
          have "waits (snd (DoWithContext_loop impl ctx fn rnd config attempt nextInterval err tr))
                  = waits tr @ [?next]"
            using lt nd Some True by (simp add: DoWithContext_loop_done_in_wait [where e = e])
          with single show ?thesis by blast
        next
          case False
          from "1.IH" [OF le nd Some ne refl refl False]
          obtain ws where ws: "waits (snd (DoWithContext_loop impl ctx fn rnd config (attempt + 1) ?next (Some e) ?tr))
               = waits ?tr @ ws" and P: "?P (attempt + 1) ?next ws"
            by blast
          have eq: "waits (snd (DoWithContext_loop impl ctx fn rnd config attempt nextInterval err tr))
              = waits tr @ (?next # ws)"
            using ws lt nd Some False by (simp add: DoWithContext_loop_retry [where e = e])
          have "?P attempt nextInterval (?next # ws)"
          proof (intro allI impI)
            fix i assume i: "i < length (?next # ws)"
            show "(?next # ws) ! i =
               calculateNextInterval impl (rnd (attempt + int i))
                 (if i = 0 then nextInterval else (?next # ws) ! (i - 1)) (attempt + int i) config"
            proof (cases i)
              case 0
              then show ?thesis by simp
            next
              case (Suc j)
              with i have j: "j < length ws" by simp
              have prev: "(if j = 0 then ?next else ws ! (j - 1)) = (?next # ws) ! j"
                by (cases j) simp_all
              from P j have "ws ! j = calculateNextInterval impl (rnd (attempt + 1 + int j))
                  (if j = 0 then ?next else ws ! (j - 1)) (attempt + 1 + int j) config" by blast
              moreover have "attempt + 1 + int j = attempt + int i" using Suc by simp
              ultimately show ?thesis using Suc prev by simp
            qed
          qed
          with eq show ?thesis by blast
        qed
      qed
    qed
  qed
qed

lemma Do_waits:
  "\<exists>ws. waits (snd (Do_loop impl fn rnd config attempt nextInterval err tr)) = waits tr @ ws \<and>
     (\<forall>i < length ws. ws ! i =
        calculateNextInterval impl (rnd (attempt + int i)) (if i = 0 then nextInterval else ws ! (i - 1))
          (attempt + int i) config)"
  unfolding Do_loop_as_DoWithContext_loop by (rule DoWithContext_loop_waits)

lemma waits_chain_bounds:
  assumes m: "Multiplier config = Finite m" "0 \<le> m" "m \<le> 2 ^ 900"
    and j: "RandomizationFactor config = Finite j" "0 \<le> j" "j \<le> 1"
    and M: "0 \<le> MaxInterval config" "MaxInterval config \<le> 2 ^ 53"
    and rnd: "\<forall>k. 0 \<le> rnd k \<and> rnd k < 1"
    and cur: "0 \<le> nextInterval" "nextInterval \<le> 2 ^ 63"
    and chain: "\<forall>i < length ws. ws ! i =
        calculateNextInterval impl (rnd (attempt + int i)) (if i = 0 then nextInterval else ws ! (i - 1))
          (attempt + int i) config"
  shows "i < length ws \<Longrightarrow> 0 \<le> ws ! i \<and> ws ! i \<le> MaxInterval config"
proof (induction i)
  case 0
  with chain have "ws ! 0 = calculateNextInterval impl (rnd attempt) nextInterval attempt config"
    by fastforce
  moreover have "0 \<le> rnd attempt" "rnd attempt \<le> 1" using rnd by (auto intro: less_imp_le)
  ultimately show ?case
    using calculateNextInterval_values(2,3) [OF m j cur _ _ M, of "rnd attempt" impl attempt] by simp
next
  case (Suc i)
  then have p: "0 \<le> ws ! i" "ws ! i \<le> 2 ^ 63" using M(2) by auto
  from chain Suc.prems
  have "ws ! Suc i = calculateNextInterval impl (rnd (attempt + int (Suc i))) (ws ! i)
          (attempt + int (Suc i)) config"
    by fastforce
  moreover have "0 \<le> rnd (attempt + int (Suc i))" "rnd (attempt + int (Suc i)) \<le> 1"
    using rnd by (auto intro: less_imp_le)
  ultimately show ?case
    using calculateNextInterval_values(2,3) [OF m j p _ _ M, of "rnd (attempt + int (Suc i))" impl
        "attempt + int (Suc i)"] by simp
qed

text \<open>
  The scenario policy has no jitter: the interval after \<open>c\<close> is \<open>2 * c\<close>, or one nanosecond
  more when the sum \<open>2 * c + r\<close> rounds up to \<open>2 * c + 1\<close>. It is \<open>2 * c\<close> for every draw
  up to \<open>1 - 1 / 2 ^ 24\<close>, and \<open>200ms + 1ns\<close> after \<open>100ms\<close> at the largest draw
  \<open>1 - 1 / 2 ^ 53\<close> of \<open>rand.Float64\<close>.
\<close>

lemma round64_one_half [simp]: "round64 (1 / 2) = Finite (1 / 2)"
  using round64_half [of 1] by simp

lemma round64_unit:
  assumes "0 \<le> r" "r \<le> 1"
  shows "round64 r = Finite (rne64 r)" "0 \<le> rne64 r" "rne64 r \<le> 1"
  using round64_bounded [of r 0] assms by simp_all

lemma round64_int_plus_unit:
  assumes "0 \<le> n" "n < 2 ^ 53" "0 \<le> u" "u \<le> 1"
  shows "round64 (real_of_int n + u) = Finite (rne64 (real_of_int n + u))"
    and "real_of_int n \<le> rne64 (real_of_int n + u)"
    and "rne64 (real_of_int n + u) \<le> real_of_int n + 1"
proof -
  have n: "\<bar>n\<bar> \<le> 2 ^ 53" "\<bar>n + 1\<bar> \<le> 2 ^ 53" using assms(1,2) by simp_all
  have "real_of_int (n + 1) \<le> real_of_int (2 ^ 53)" using assms(2) by (simp only: of_int_le_iff)
  then have "\<bar>real_of_int n + u\<bar> \<le> 2 ^ 1023" using assms(1,3,4) by simp
  then show "round64 (real_of_int n + u) = Finite (rne64 (real_of_int n + u))"
    by (rule round64_Finite)
  have "rne64 (real_of_int n) \<le> rne64 (real_of_int n + u)" using assms(3) by (intro rne64_mono) simp
  then show "real_of_int n \<le> rne64 (real_of_int n + u)" by (simp add: rne64_of_int [OF n(1)])
  have "rne64 (real_of_int n + u) \<le> rne64 (real_of_int (n + 1))"
    using assms(4) by (intro rne64_mono) simp
  moreover have "rne64 (real_of_int (n + 1)) = real_of_int (n + 1)" by (rule rne64_of_int [OF n(2)])
  ultimately show "rne64 (real_of_int n + u) \<le> real_of_int n + 1" by simp
qed

lemma scenario_interval:
  assumes r: "0 \<le> r" "r < 1" and c: "0 \<le> c" "2 * c + 1 \<le> 1000000000"
  shows "2 * c \<le> calculateNextInterval impl r c attempt scenario_policy"
    and "calculateNextInterval impl r c attempt scenario_policy \<le> 2 * c + 1"
proof -
  let ?i = "real_of_int (2 * c)"
  define u where "u = rne64 r"
  define x where "x = rne64 (?i + u)"
  have c53: "\<bar>c\<bar> \<le> 2 ^ 53" "\<bar>2 * c\<bar> \<le> 2 ^ 53" "0 \<le> 2 * c" "2 * c < 2 ^ 53" using c by simp_all
  have U: "round64 r = Finite u" "0 \<le> u" "u \<le> 1"
    using round64_unit [of r] r by (simp_all add: u_def)
  note X = round64_int_plus_unit [OF c53(3,4) U(2,3), folded x_def]
  have i: "fmul (float64_of_int c) (Finite 2) = Finite ?i"
    using round64_of_int [OF c53(1)] round64_of_int [OF c53(2)]
    by (simp add: float64_of_int_def mult.commute)
  have ii: "round64 ?i = Finite ?i" by (rule round64_of_int [OF c53(2)])
  have band: "jitterBand c scenario_policy = (Finite ?i, Finite ?i)"
    using ii by (simp add: jitterBand_def scenario_policy_def Let_def i fsub_def del: of_int_mult)
  have jit: "jitteredInterval r c scenario_policy = Finite x"
    using U(1) X(1) by (simp add: jitteredInterval_def band fsub_def del: of_int_mult)
  have M: "float64_of_int (MaxInterval scenario_policy) = Finite 1000000000"
    by (simp add: scenario_policy_def Second_def Millisecond_def float64_of_int_def)
  have "real_of_int (2 * c + 1) \<le> real_of_int 1000000000" using c(2) by (simp only: of_int_le_iff)
  then have xM: "x \<le> 1000000000" using X(3) by simp
  have x0: "0 \<le> x" using X(2) c(1) by simp
  have fl: "2 * c \<le> \<lfloor>x\<rfloor>" "\<lfloor>x\<rfloor> \<le> 2 * c + 1"
    using X(2,3) by (simp_all add: le_floor_iff floor_le_iff)
  have "\<lfloor>x\<rfloor> \<le> 1000000000" using fl(2) c(2) by linarith
  then have "\<lfloor>x\<rfloor> < 2 ^ 63" by (rule le_less_trans) simp
  moreover have "0 \<le> \<lfloor>x\<rfloor>" using fl(1) c(1) by linarith
  then have "- (2 ^ 63) \<le> \<lfloor>x\<rfloor>" by (rule order_trans [rotated]) simp
  ultimately have "calculateNextInterval impl r c attempt scenario_policy = \<lfloor>x\<rfloor>"
    using x0 xM by (simp add: calculateNextInterval_def Let_def jit M Duration_def min_def)
  with fl show "2 * c \<le> calculateNextInterval impl r c attempt scenario_policy"
    and "calculateNextInterval impl r c attempt scenario_policy \<le> 2 * c + 1" by simp_all
qed


lemma pow2_m24: "pow2 (- 24) = 1 / 2 ^ 24"
proof -
  have "pow2 (- 24) * pow2 (int 24) = 1" by (simp only: pow2_add [symmetric]) simp
  then show ?thesis by (simp only: pow2_nat) (simp add: field_simps)
qed

lemma scenario_interval_exact:
  assumes r: "0 \<le> r" "r \<le> 1 - 1 / 2 ^ 24" and c: "0 \<le> c" "2 * c + 1 \<le> 2 ^ 29"
  shows "calculateNextInterval impl r c attempt scenario_policy = 2 * c"
proof -
  let ?i = "real_of_int (2 * c)"
  define u where "u = rne64 r"
  define x where "x = rne64 (?i + u)"
  define n :: int where "n = 2 * c * 2 ^ 24 + (2 ^ 24 - 1)"
  have r1: "r < 1" using r(2) by simp
  have c': "2 * c + 1 \<le> 1000000000" using c(2) by simp
  have lo: "2 * c \<le> calculateNextInterval impl r c attempt scenario_policy"
    using scenario_interval(1) [OF r(1) r1 c(1) c'] .
  have c53: "\<bar>c\<bar> \<le> 2 ^ 53" "\<bar>2 * c\<bar> \<le> 2 ^ 53" "0 \<le> 2 * c" "2 * c < 2 ^ 53" using c by simp_all
  have U: "round64 r = Finite u" "0 \<le> u" "u \<le> 1"
    using round64_unit [of r] r(1) r1 by (simp_all add: u_def)
  note X = round64_int_plus_unit [OF c53(3,4) U(2,3), folded x_def]
  define tt where "tt = real_of_int (2 ^ 24 - 1) * pow2 (- 24)"
  have tv: "tt = 1 - 1 / 2 ^ 24" by (simp add: tt_def pow2_m24)
  have t: "rne64 tt = tt" unfolding tt_def by (rule rne64_exact) simp_all
  have "r \<le> tt" using r(2) by (simp only: tv)
  then have "u \<le> rne64 tt" unfolding u_def by (rule rne64_mono)
  then have "u \<le> tt" by (simp only: t)
  then have u: "u \<le> 1 - 1 / 2 ^ 24" by (simp only: tv)
  have n53: "\<bar>n\<bar> \<le> 2 ^ 53" using c by (simp add: n_def)
  define y where "y = real_of_int n * pow2 (- 24)"
  have y: "rne64 y = y" unfolding y_def using n53 by (rule rne64_exact) simp
  have yv: "y = ?i + (1 - 1 / 2 ^ 24)"
    by (simp add: y_def n_def pow2_m24 field_simps)
  have "?i + u \<le> y" using u by (simp only: yv)
  then have "x \<le> rne64 y" unfolding x_def by (rule rne64_mono)
  then have "x \<le> y" by (simp only: y)
  then have xu: "x < ?i + 1" by (simp only: yv) simp
  have x0: "0 \<le> x" using X(2) c(1) by simp
  have i: "fmul (float64_of_int c) (Finite 2) = Finite ?i"
    using round64_of_int [OF c53(1)] round64_of_int [OF c53(2)]
    by (simp add: float64_of_int_def mult.commute)
  have ii: "round64 ?i = Finite ?i" by (rule round64_of_int [OF c53(2)])
  have band: "jitterBand c scenario_policy = (Finite ?i, Finite ?i)"
    using ii by (simp add: jitterBand_def scenario_policy_def Let_def i fsub_def del: of_int_mult)
  have jit: "jitteredInterval r c scenario_policy = Finite x"
    using U(1) X(1) by (simp add: jitteredInterval_def band fsub_def del: of_int_mult)
  have M: "float64_of_int (MaxInterval scenario_policy) = Finite 1000000000"
    by (simp add: scenario_policy_def Second_def Millisecond_def float64_of_int_def)
  have "real_of_int (2 * c + 1) \<le> real_of_int 1000000000" using c' by (simp only: of_int_le_iff)
  then have xM: "x \<le> 1000000000" using X(3) by simp
  have fl: "\<lfloor>x\<rfloor> = 2 * c"
    using X(2) xu by (intro floor_unique) simp_all
  have "\<lfloor>x\<rfloor> \<le> 1000000000" using fl c' by linarith
  then have "\<lfloor>x\<rfloor> < 2 ^ 63" by (rule le_less_trans) simp
  moreover have "0 \<le> \<lfloor>x\<rfloor>" using fl c(1) by linarith
  then have "- (2 ^ 63) \<le> \<lfloor>x\<rfloor>" by (rule order_trans [rotated]) simp
  ultimately have "calculateNextInterval impl r c attempt scenario_policy = \<lfloor>x\<rfloor>"
    using x0 xM by (simp add: calculateNextInterval_def Let_def jit M Duration_def min_def)
  with fl show ?thesis by simp
qed

lemma round64_late_draw: "round64 (200000001 - 1 / 2 ^ 53) = Finite 200000001"
proof -
  define x :: real where "x = 200000001 - 1 / 2 ^ 53"
  define z :: real where "z = x * 2 ^ 25"
  have p27: "pow2 27 = 2 ^ 27" and p28: "pow2 28 = 2 ^ 28" and p25: "pow2 25 = 2 ^ 25"
    using pow2_nat [of 27] pow2_nat [of 28] pow2_nat [of 25] by simp_all
  have "pow2 (- 25) * pow2 25 = 1" by (simp only: pow2_add [symmetric]) simp
  then have pm: "pow2 (- 25) = 1 / 2 ^ 25" by (simp only: p25) (simp add: field_simps)
  have x0: "x \<noteq> 0" by (simp add: x_def)
  have "pow2 27 \<le> \<bar>x\<bar>" "\<bar>x\<bar> < pow2 (27 + 1)" by (simp_all add: p27 p28 x_def)
  then have "27 \<le> \<lfloor>log 2 \<bar>x\<bar>\<rfloor>" "\<lfloor>log 2 \<bar>x\<bar>\<rfloor> \<le> 27"
    using floor_log2_ge [of 27 x] floor_log2_le [OF x0, of 27] by blast+
  then have "\<lfloor>log 2 \<bar>x\<bar>\<rfloor> = 27" by (rule order_antisym [rotated])
  then have e: "ulp_exp x = - 25" by (simp add: ulp_exp_def)
  have zv: "z = 200000001 * 2 ^ 25 - 1 / 2 ^ 28" by (simp add: z_def x_def)
  have fl: "\<lfloor>z\<rfloor> = 200000001 * 2 ^ 25 - 1"
    by (rule floor_unique) (simp_all add: zv)
  have d: "z - real_of_int \<lfloor>z\<rfloor> = 1 - 1 / 2 ^ 28" by (simp add: fl zv)
  have "rne z = 200000001 * 2 ^ 25" unfolding rne_def Let_def d by (simp add: fl)
  moreover have "x / pow2 (- 25) = z" by (simp add: pm z_def)
  ultimately have "rne64 x = 200000001" by (simp add: rne64_def e) (simp add: pm)
  moreover have "\<bar>x\<bar> \<le> 2 ^ 1023" by (simp add: x_def)
  ultimately have "round64 x = Finite 200000001" by (simp add: round64_Finite)
  then show ?thesis by (simp only: x_def)
qed

lemma round64_largest_draw: "round64 (1 - 1 / 2 ^ 53) = Finite (1 - 1 / 2 ^ 53)"
proof -
  define t where "t = real_of_int (2 ^ 53 - 1) * pow2 (- 53)"
  have "pow2 (- 53) * pow2 (int 53) = 1" by (simp only: pow2_add [symmetric]) simp
  then have pm: "pow2 (- 53) = 1 / 2 ^ 53" by (simp only: pow2_nat) (simp add: field_simps)
  have tv: "t = 1 - 1 / 2 ^ 53" by (simp add: t_def pm)
  have "rne64 t = t" unfolding t_def by (rule rne64_exact) simp_all
  moreover have "\<bar>t\<bar> \<le> 2 ^ 1023" by (simp add: tv)
  ultimately have "round64 t = Finite t" by (simp add: round64_Finite)
  then show ?thesis by (simp only: tv)
qed

lemma scenario_largest_draw:
  "calculateNextInterval impl (1 - 1 / 2 ^ 53) (100 * Millisecond) 1 scenario_policy
     = 200 * Millisecond + 1"
  by (simp add: calculateNextInterval_def jitteredInterval_def jitterBand_def fsub_def
      float64_of_int_def Duration_def scenario_policy_def Millisecond_def Second_def Let_def
      round64_largest_draw round64_late_draw del: power_numeral, simp)

text \<open>
  Three roundings at the edge of \<open>float64\<close>: a tie, a power of two beyond \<open>2 ^ 53\<close>
  and an overflow.
\<close>

lemma round64_tie: "round64 (2 ^ 53 + 3) = Finite (2 ^ 53 + 4)"
proof -
  define x :: real where "x = 2 ^ 53 + 3"
  have p53: "pow2 53 = 2 ^ 53" and p54: "pow2 54 = 2 ^ 54" and p1: "pow2 1 = 2"
    using pow2_nat [of 53] pow2_nat [of 54] pow2_nat [of 1] by simp_all
  have x0: "x \<noteq> 0" by (simp add: x_def)
  have "pow2 53 \<le> \<bar>x\<bar>" "\<bar>x\<bar> < pow2 (53 + 1)" by (simp_all add: p53 p54 x_def)
  then have "53 \<le> \<lfloor>log 2 \<bar>x\<bar>\<rfloor>" "\<lfloor>log 2 \<bar>x\<bar>\<rfloor> \<le> 53"
    using floor_log2_ge [of 53 x] floor_log2_le [OF x0, of 53] by blast+
  then have "\<lfloor>log 2 \<bar>x\<bar>\<rfloor> = 53" by (rule order_antisym [rotated])
  then have e: "ulp_exp x = 1" by (simp add: ulp_exp_def)
  have "rne (x / 2) = 2 ^ 52 + 2" by (simp add: x_def rne_def Let_def)
  then have "rne64 x = 2 ^ 53 + 4" by (simp add: rne64_def e p1)
  moreover have "\<bar>x\<bar> \<le> 2 ^ 1023" by (simp add: x_def)
  ultimately have "round64 x = Finite (2 ^ 53 + 4)" by (simp add: round64_Finite)
  then show ?thesis by (simp add: x_def)
qed

lemma round64_2_54: "round64 (2 ^ 54) = Finite (2 ^ 54)"
  using round64_Finite [of "2 ^ 54"] rne64_pow2_nat [of 54] by simp

lemma round64_overflow: "round64 (100000000 * 2 ^ 1000) = PosInf"
proof -
  define x :: real where "x = 100000000 * 2 ^ 1000"
  have "pow2 (int 1000) = 2 ^ 1000" by (rule pow2_nat)
  moreover have "rne64 (real_of_int 100000000 * pow2 (int 1000))
      = real_of_int 100000000 * pow2 (int 1000)"
    by (rule rne64_exact) simp_all
  ultimately have "rne64 x = x" by (simp add: x_def)
  moreover have "MaxFloat64 < x" by (simp add: x_def MaxFloat64_def)
  ultimately have "round64 x = PosInf" by (simp add: round64_def)
  then show ?thesis by (simp add: x_def)
qed


lemma round64_neg_1 [simp]: "round64 (- 1) = Finite (- 1)"
  using round64_of_int [of "- 1"] by simp

subsection \<open>The retry scenario\<close>

text \<open>
  Claim C1. Under the policy \<open>{maxAttempts = 3, initialInterval = 100ms, maxInterval = 1s,
  multiplier = 2.0, jitterFactor = 0}\<close>, with an operation that fails twice and then
  succeeds, the operation is to be invoked three times, with waits of 100ms and then 200ms,
  and success returned. Evaluated on the code, for every random draw in \<open>[0, 1)\<close>: three
  invocations and success, but the waits are 200ms and then 400ms, since
  \<open>calculateNextInterval\<close> multiplies \<open>InitialInterval\<close> before the first wait. They are
  200ms and 400ms to the nanosecond for draws up to \<open>1 - 1 / 2 ^ 24\<close>; for a draw above it
  the sum \<open>interval + draw\<close> may round up in \<open>float64\<close>, which adds at most one nanosecond
  to the first wait and three to the second.
\<close>

theorem Do_scenario_waits:
  assumes "fn 1 = Some e1" "fn 2 = Some e2" "fn 3 = None" "\<forall>k. 0 \<le> rnd k \<and> rnd k < 1"
  shows "\<exists>w1 w2.
           Do impl fn rnd scenario_policy = (None, \<lparr>calls = 3, waits = [w1, w2]\<rparr>) \<and>
           200 * Millisecond \<le> w1 \<and> w1 \<le> 200 * Millisecond + 1 \<and>
           400 * Millisecond \<le> w2 \<and> w2 \<le> 400 * Millisecond + 3 \<and>
           (rnd 1 \<le> 1 - 1 / 2 ^ 24 \<and> rnd 2 \<le> 1 - 1 / 2 ^ 24 \<longrightarrow>
              w1 = 200 * Millisecond \<and> w2 = 400 * Millisecond) \<and>
           ((\<forall>k. \<not> done_before ctx k \<and> \<not> done_in_wait ctx k) \<longrightarrow>
            DoWithContext impl ctx fn rnd scenario_policy
              = (None, \<lparr>calls = 3, waits = [w1, w2]\<rparr>))"
proof -
  define w1 where "w1 = calculateNextInterval impl (rnd 1) 100000000 1 scenario_policy"
  define w2 where "w2 = calculateNextInterval impl (rnd 2) w1 2 scenario_policy"
  have r: "0 \<le> rnd 1" "rnd 1 < 1" "0 \<le> rnd 2" "rnd 2 < 1" using assms(4) by auto
  have b1: "200000000 \<le> w1" "w1 \<le> 200000001"
    using scenario_interval [OF r(1,2), of 100000000 impl 1] by (simp_all add: w1_def)
  have b2: "2 * w1 \<le> w2" "w2 \<le> 2 * w1 + 1"
    using scenario_interval [OF r(3,4), of w1 impl 2] b1 by (simp_all add: w2_def)
  have x: "w1 = 200000000 \<and> w2 = 400000000"
    if "rnd 1 \<le> 1 - 1 / 2 ^ 24 \<and> rnd 2 \<le> 1 - 1 / 2 ^ 24"
  proof -
    have "w1 = 200000000"
      using scenario_interval_exact [of "rnd 1" 100000000 impl 1] r(1) that by (simp add: w1_def)
    moreover from this have "w2 = 400000000"
      using scenario_interval_exact [of "rnd 2" 200000000 impl 2] r(3) that by (simp add: w2_def)
    ultimately show ?thesis by simp
  qed
  have m: "MaxAttempts scenario_policy = 3" "InitialInterval scenario_policy = 100000000"
    by (simp_all add: scenario_policy_def Millisecond_def)
  have d: "Do impl fn rnd scenario_policy = (None, \<lparr>calls = 3, waits = [w1, w2]\<rparr>)"
    unfolding Do_def m
    by (subst Do_loop.simps, simp add: assms m Let_def w1_def [symmetric],
        subst Do_loop.simps, simp add: assms m Let_def w2_def [symmetric],
        subst Do_loop.simps, simp add: assms m)
  moreover have "DoWithContext impl ctx fn rnd scenario_policy = Do impl fn rnd scenario_policy"
    if "\<forall>k. \<not> done_before ctx k \<and> \<not> done_in_wait ctx k"
    unfolding Do_def DoWithContext_def using that by (intro never_cancelled_eq_Do) auto
  ultimately show ?thesis using b1 b2 x
    by (intro exI [of _ w1] exI [of _ w2]) (simp add: Millisecond_def)
qed

text \<open>
  The scenario at a concrete operation and a concrete draw.
\<close>

theorem Do_scenario_waits_witness:
  "(\<lambda>k::int. if k < 3 then Some (ErrorString ''timeout'') else None) 1 = Some (ErrorString ''timeout'') \<and>
   (\<lambda>k::int. if k < 3 then Some (ErrorString ''timeout'') else None) 2 = Some (ErrorString ''timeout'') \<and>
   (\<lambda>k::int. if k < 3 then Some (ErrorString ''timeout'') else None) 3 = None \<and>
   (\<forall>k::int. (0::real) \<le> 1 / 2 \<and> (1::real) / 2 < 1) \<and> (1::real) / 2 \<le> 1 - 1 / 2 ^ 24 \<and>
   Do amd64_conversion (\<lambda>k. if k < 3 then Some (ErrorString ''timeout'') else None) (\<lambda>k. 1 / 2)
       scenario_policy
     = (None, \<lparr>calls = 3, waits = [200000000, 400000000]\<rparr>) \<and>
   DoWithContext amd64_conversion
       \<lparr>done_before = \<lambda>k. False, done_in_wait = \<lambda>k. False, Err = ContextError Canceled\<rparr>
       (\<lambda>k. if k < 3 then Some (ErrorString ''timeout'') else None) (\<lambda>k. 1 / 2) scenario_policy
     = (None, \<lparr>calls = 3, waits = [200000000, 400000000]\<rparr>)"
proof -
  have d: "Do amd64_conversion (\<lambda>k. if k < 3 then Some (ErrorString ''timeout'') else None) (\<lambda>k. 1 / 2)
       scenario_policy
     = (None, \<lparr>calls = 3, waits = [200000000, 400000000]\<rparr>)"
    by (simp add: scenario_policy_def Do_def Do_loop.simps calculateNextInterval_def
        jitteredInterval_def jitterBand_def fsub_def float64_of_int_def Duration_def
        Millisecond_def Second_def Let_def)
  from Do_scenario_waits [where fn = "\<lambda>k. if k < 3 then Some (ErrorString ''timeout'') else None"
      and rnd = "\<lambda>k. 1 / 2" and ?e1.0 = "ErrorString ''timeout''" and ?e2.0 = "ErrorString ''timeout''"
      and impl = amd64_conversion
      and ctx = "\<lparr>done_before = \<lambda>k. False, done_in_wait = \<lambda>k. False, Err = ContextError Canceled\<rparr>"]
  show ?thesis unfolding d by simp
qed

subsection \<open>Bounds on the intervals\<close>

text \<open>
  Claim C2, as stated, fails, in three ways. With \<open>multiplier = 2\<close>, \<open>jitterFactor = 0.5\<close>,
  \<open>initialInterval = 100ms\<close> and every draw equal to 0, each retry waits 100ms: the jitter
  is applied to the previous, already jittered interval, and the value computed for the
  third wait (100ms before clamping) lies outside the band around
  \<open>initialInterval * multiplier ^ k\<close> for \<open>k = 2\<close> and for \<open>k = 3\<close>. With a ceiling of
  \<open>2 ^ 53 + 3\<close> nanoseconds, which \<open>float64\<close> rounds to \<open>2 ^ 53 + 4\<close>, the clamp lets
  through an interval of \<open>maxInterval + 1\<close>. And with a multiplier of \<open>2 ^ 1000\<close> the
  product overflows to an infinity, whose conversion to \<open>time.Duration\<close> is, on amd64, the
  smallest \<open>int64\<close>: a negative interval.
\<close>

theorem backoff_band_counterexample:
  "Multiplier jitter_policy = Finite 2 \<and> RandomizationFactor jitter_policy = Finite (1 / 2) \<and>
   waits (snd (Do amd64_conversion (\<lambda>k. Some (ErrorString ''unavailable'')) (\<lambda>k. 0) jitter_policy))
     = [100 * Millisecond, 100 * Millisecond, 100 * Millisecond] \<and>
   jitteredInterval 0 (100 * Millisecond) jitter_policy = Finite 100000000 \<and>
   \<not> spec_within_jitter_band jitter_policy 2 100000000 \<and>
   \<not> spec_within_jitter_band jitter_policy 3 100000000 \<and>
   Multiplier coarse_policy = Finite 2 \<and> RandomizationFactor coarse_policy = Finite 0 \<and>
   waits (snd (Do amd64_conversion (\<lambda>k. Some (ErrorString ''unavailable'')) (\<lambda>k. 0) coarse_policy))
     = [MaxInterval coarse_policy + 1] \<and>
   Multiplier overflow_policy = Finite (2 ^ 1000) \<and>
   RandomizationFactor overflow_policy = Finite (1 / 2) \<and>
   waits (snd (Do amd64_conversion (\<lambda>k. Some (ErrorString ''unavailable'')) (\<lambda>k. 0) overflow_policy))
     = [- (2 ^ 63)]"
proof -
  have a: "waits (snd (Do amd64_conversion (\<lambda>k. Some (ErrorString ''unavailable'')) (\<lambda>k. 0) jitter_policy))
     = [100 * Millisecond, 100 * Millisecond, 100 * Millisecond]"
    by (simp add: jitter_policy_def Do_def Do_loop.simps calculateNextInterval_def
        jitteredInterval_def jitterBand_def fsub_def float64_of_int_def Duration_def
        Millisecond_def Second_def Let_def)
  have b: "jitteredInterval 0 (100 * Millisecond) jitter_policy = Finite 100000000"
    by (simp add: jitter_policy_def jitteredInterval_def jitterBand_def fsub_def
        float64_of_int_def Millisecond_def Second_def Let_def)
  have c: "\<not> spec_within_jitter_band jitter_policy 2 100000000"
    "\<not> spec_within_jitter_band jitter_policy 3 100000000"
    by (simp_all add: jitter_policy_def spec_within_jitter_band_def Millisecond_def Second_def)
  have t: "round64 9007199254740995 = Finite 9007199254740996"
    using round64_tie by simp
  have u: "round64 18014398509481984 = Finite 18014398509481984"
    using round64_2_54 by simp
  have d: "waits (snd (Do amd64_conversion (\<lambda>k. Some (ErrorString ''unavailable'')) (\<lambda>k. 0) coarse_policy))
     = [MaxInterval coarse_policy + 1]"
    by (simp add: coarse_policy_def Do_def Do_loop.simps calculateNextInterval_def
        jitteredInterval_def jitterBand_def fsub_def float64_of_int_def Duration_def Let_def t u)
  have e: "waits (snd (Do amd64_conversion (\<lambda>k. Some (ErrorString ''unavailable'')) (\<lambda>k. 0) overflow_policy))
     = [- (2 ^ 63)]"
    using round64_overflow
    by (simp add: overflow_policy_def Do_def Do_loop.simps calculateNextInterval_def
        jitteredInterval_def jitterBand_def fsub_def float64_of_int_def Duration_def Let_def
        Millisecond_def Second_def amd64_conversion_def)
  show ?thesis using a b c d e
    by (simp add: jitter_policy_def coarse_policy_def overflow_policy_def)
qed

text \<open>
  Claim C2, amended. For a policy with \<open>1 < multiplier \<le> 2 ^ 900\<close>, \<open>jitterFactor\<close> in
  \<open>[0, 1]\<close>, \<open>0 \<le> initialInterval\<close> and \<open>0 \<le> maxInterval \<le> 2 ^ 53\<close> nanoseconds, and
  draws in \<open>[0, 1)\<close>, every interval \<open>Do\<close> or \<open>DoWithContext\<close> waits for lies between 0 and
  \<open>maxInterval\<close>. Each interval after the first is computed from the interval \<open>p\<close> waited
  before it, which is itself jittered and clamped: no value of the computation overflows,
  the \<open>float64\<close> bounds \<open>minInterval\<close> and \<open>maxInterval\<close> of the code lie on either side
  of the \<open>float64\<close> product \<open>p * multiplier\<close>, the value before clamping lies between
  \<open>minInterval\<close> and \<open>minInterval + (maxInterval - minInterval + 1)\<close>, and the interval is
  that value clamped to \<open>maxInterval\<close> and truncated to whole nanoseconds.
\<close>

theorem backoff_intervals:
  assumes m: "Multiplier config = Finite m" "1 < m" "m \<le> 2 ^ 900"
    and j: "RandomizationFactor config = Finite j" "0 \<le> j" "j \<le> 1"
    and I: "0 \<le> InitialInterval config" "InitialInterval config < 2 ^ 63"
    and M: "0 \<le> MaxInterval config" "MaxInterval config \<le> 2 ^ 53"
    and rnd: "\<forall>k. 0 \<le> rnd k \<and> rnd k < 1"
    and ws: "ws = waits (snd (Do impl fn rnd config)) \<or>
             ws = waits (snd (DoWithContext impl ctx fn rnd config))"
  shows "(\<forall>i < length ws. 0 \<le> ws ! i \<and> ws ! i \<le> MaxInterval config) \<and>
     (\<forall>i. Suc i < length ws \<longrightarrow>
        (\<exists>iv lo hi x top.
           fmul (float64_of_int (ws ! i)) (Multiplier config) = Finite iv \<and>
           jitterBand (ws ! i) config = (Finite lo, Finite hi) \<and>
           jitteredInterval (rnd (int i + 2)) (ws ! i) config = Finite x \<and>
           fadd (Finite lo) (fadd (fsub (Finite hi) (Finite lo)) (Finite 1)) = Finite top \<and>
           0 \<le> lo \<and> lo \<le> iv \<and> iv \<le> hi \<and> lo \<le> x \<and> x \<le> top \<and>
           ws ! Suc i = \<lfloor>min x (real_of_int (MaxInterval config))\<rfloor>))"
proof -
  have "\<exists>ws'. ws = [] @ ws' \<and> (\<forall>i < length ws'. ws' ! i =
        calculateNextInterval impl (rnd (1 + int i))
          (if i = 0 then InitialInterval config else ws' ! (i - 1)) (1 + int i) config)"
    using ws Do_waits [of impl fn rnd config 1 "InitialInterval config" None "\<lparr>calls = 0, waits = []\<rparr>"]
      DoWithContext_loop_waits [of impl ctx fn rnd config 1 "InitialInterval config" None
        "\<lparr>calls = 0, waits = []\<rparr>"]
    by (auto simp add: Do_def DoWithContext_def)
  then have chain: "\<forall>i < length ws. ws ! i =
        calculateNextInterval impl (rnd (1 + int i))
          (if i = 0 then InitialInterval config else ws ! (i - 1)) (1 + int i) config"
    by simp
  have m0: "0 \<le> m" using m(2) by simp
  have I': "InitialInterval config \<le> 2 ^ 63" using I(2) by simp
  have bounds: "\<And>i. i < length ws \<Longrightarrow> 0 \<le> ws ! i \<and> ws ! i \<le> MaxInterval config"
    using waits_chain_bounds [OF m(1) m0 m(3) j M rnd I(1) I' chain] by blast
  have step: "\<exists>iv lo hi x top.
           fmul (float64_of_int (ws ! i)) (Multiplier config) = Finite iv \<and>
           jitterBand (ws ! i) config = (Finite lo, Finite hi) \<and>
           jitteredInterval (rnd (int i + 2)) (ws ! i) config = Finite x \<and>
           fadd (Finite lo) (fadd (fsub (Finite hi) (Finite lo)) (Finite 1)) = Finite top \<and>
           0 \<le> lo \<and> lo \<le> iv \<and> iv \<le> hi \<and> lo \<le> x \<and> x \<le> top \<and>
           ws ! Suc i = \<lfloor>min x (real_of_int (MaxInterval config))\<rfloor>"
    if i: "Suc i < length ws" for i
  proof -
    have e: "1 + int (Suc i) = int i + 2" by simp
    from chain i
    have c: "ws ! Suc i = calculateNextInterval impl (rnd (int i + 2)) (ws ! i) (int i + 2) config"
      unfolding e [symmetric] by fastforce
    have p: "0 \<le> ws ! i" "ws ! i \<le> 2 ^ 63" using bounds [of i] i M(2) by auto
    have r: "0 \<le> rnd (int i + 2)" "rnd (int i + 2) \<le> 1" using rnd by (auto intro: less_imp_le)
    from jitter_values [OF m(1) m0 m(3) j p r] obtain iv lo hi x top where
      v: "fmul (float64_of_int (ws ! i)) (Multiplier config) = Finite iv"
        "jitterBand (ws ! i) config = (Finite lo, Finite hi)"
        "jitteredInterval (rnd (int i + 2)) (ws ! i) config = Finite x"
        "fadd (Finite lo) (fadd (fsub (Finite hi) (Finite lo)) (Finite 1)) = Finite top"
        "0 \<le> lo" "lo \<le> iv" "iv \<le> hi" "lo \<le> x" "x \<le> top"
      by blast
    from calculateNextInterval_values(1) [OF m(1) m0 m(3) j p r M, of impl "int i + 2"] v(3)
    have "ws ! Suc i = \<lfloor>min x (real_of_int (MaxInterval config))\<rfloor>" using c by auto
    with v show ?thesis by blast
  qed
  show ?thesis using bounds step by blast
qed


text \<open>
  The amended claim under \<open>multiplier = 2\<close>, \<open>jitterFactor = 0.5\<close>, \<open>initialInterval =
  100ms\<close>, with every draw equal to \<open>1 / 2\<close>: waits of 200ms, 400ms and 800ms.
\<close>

theorem backoff_intervals_witness:
  "Multiplier jitter_policy = Finite 2 \<and> (1::real) < 2 \<and> (2::real) \<le> 2 ^ 900 \<and>
   RandomizationFactor jitter_policy = Finite (1 / 2) \<and> (0::real) \<le> 1 / 2 \<and> (1::real) / 2 \<le> 1 \<and>
   0 \<le> InitialInterval jitter_policy \<and> InitialInterval jitter_policy < 2 ^ 63 \<and>
   0 \<le> MaxInterval jitter_policy \<and> MaxInterval jitter_policy \<le> 2 ^ 53 \<and>
   (\<forall>k::int. (0::real) \<le> 1 / 2 \<and> (1::real) / 2 < 1) \<and>
   waits (snd (Do amd64_conversion (\<lambda>k. Some (ErrorString ''unavailable'')) (\<lambda>k. 1 / 2) jitter_policy))
     = [200000000, 400000000, 800000000] \<and>
   fmul (float64_of_int 200000000) (Multiplier jitter_policy) = Finite 400000000 \<and>
   jitterBand 200000000 jitter_policy = (Finite 200000000, Finite 600000000) \<and>
   jitteredInterval (1 / 2) 200000000 jitter_policy = Finite (800000001 / 2) \<and>
   fadd (Finite 200000000) (fadd (fsub (Finite 600000000) (Finite 200000000)) (Finite 1))
     = Finite 600000001 \<and>
   (400000000::int) = \<lfloor>min (800000001 / 2) (real_of_int (MaxInterval jitter_policy))\<rfloor>"
proof -
  have w: "waits (snd (Do amd64_conversion (\<lambda>k. Some (ErrorString ''unavailable'')) (\<lambda>k. 1 / 2) jitter_policy))
     = [200000000, 400000000, 800000000]"
    by (simp add: jitter_policy_def Do_def Do_loop.simps calculateNextInterval_def
      jitteredInterval_def jitterBand_def fsub_def float64_of_int_def Duration_def
      Millisecond_def Second_def Let_def)
  have v: "fmul (float64_of_int 200000000) (Multiplier jitter_policy) = Finite 400000000"
    "jitterBand 200000000 jitter_policy = (Finite 200000000, Finite 600000000)"
    "jitteredInterval (1 / 2) 200000000 jitter_policy = Finite (800000001 / 2)"
    "fadd (Finite 200000000) (fadd (fsub (Finite 600000000) (Finite 200000000)) (Finite 1))
       = Finite 600000001"
    "(400000000::int) = \<lfloor>min (800000001 / 2) (real_of_int (MaxInterval jitter_policy))\<rfloor>"
    by (simp_all add: jitter_policy_def jitteredInterval_def jitterBand_def fsub_def
      float64_of_int_def Millisecond_def Second_def Let_def)
  have p: "Multiplier jitter_policy = Finite 2" "RandomizationFactor jitter_policy = Finite (1 / 2)"
    "0 \<le> InitialInterval jitter_policy" "InitialInterval jitter_policy < 2 ^ 63"
    "0 \<le> MaxInterval jitter_policy" "MaxInterval jitter_policy \<le> 2 ^ 53"
    by (simp_all add: jitter_policy_def Millisecond_def Second_def)
  from backoff_intervals [where config = jitter_policy and rnd = "\<lambda>k. 1 / 2" and m = 2 and j = "1 / 2"
      and fn = "\<lambda>k. Some (ErrorString ''unavailable'')" and ctx = "\<lparr>done_before = \<lambda>k. False, done_in_wait = \<lambda>k. False, Err = ContextError Canceled\<rparr>"
      and impl = amd64_conversion and ws = "[200000000, 400000000, 800000000]"]
  show ?thesis using w v p by simp
qed

subsection \<open>Number of invocations\<close>

text \<open>
  Claim C3. For every policy with \<open>maxAttempts \<ge> 1\<close> and every operation, \<open>Do\<close> and
  \<open>DoWithContext\<close> invoke the operation at most \<open>maxAttempts\<close> times; when the first
  invocation succeeds they return success after that one invocation, without any wait.
\<close>

theorem retry_invocations_bounded:
  assumes "1 \<le> MaxAttempts config"
  shows "int (calls (snd (Do impl fn rnd config))) \<le> MaxAttempts config \<and>
         int (calls (snd (DoWithContext impl ctx fn rnd config))) \<le> MaxAttempts config \<and>
         (fn 1 = None \<longrightarrow> Do impl fn rnd config = (None, \<lparr>calls = 1, waits = []\<rparr>)) \<and>
         (\<not> done_before ctx 1 \<and> fn 1 = None \<longrightarrow>
            DoWithContext impl ctx fn rnd config = (None, \<lparr>calls = 1, waits = []\<rparr>))"
proof -
  have "int (calls (snd (DoWithContext impl ctx' fn rnd config))) \<le> MaxAttempts config" for ctx'
    using DoWithContext_loop_calls_le
      [of impl ctx' fn rnd config 1 "InitialInterval config" None "\<lparr>calls = 0, waits = []\<rparr>"] assms
    by (simp add: DoWithContext_def)
  moreover have "Do impl fn rnd config = DoWithContext impl
      \<lparr>done_before = \<lambda>k. False, done_in_wait = \<lambda>k. False, Err = ContextError Canceled\<rparr> fn rnd config"
    by (simp add: Do_def DoWithContext_def Do_loop_as_DoWithContext_loop)
  moreover have "Do impl fn rnd config = (None, \<lparr>calls = 1, waits = []\<rparr>)" if "fn 1 = None"
    using that assms by (simp add: Do_def Do_loop_success)
  moreover have "DoWithContext impl ctx fn rnd config = (None, \<lparr>calls = 1, waits = []\<rparr>)"
    if "\<not> done_before ctx 1" "fn 1 = None"
    using that assms by (simp add: DoWithContext_def DoWithContext_loop_success)
  ultimately show ?thesis by simp
qed

text \<open>
  The default policy with an operation that always fails, and with one that succeeds at once.
\<close>

theorem retry_invocations_bounded_witness:
  "1 \<le> MaxAttempts DefaultConfig \<and>
   int (calls (snd (Do amd64_conversion (\<lambda>k. Some (ErrorString ''down'')) (\<lambda>k. 0) DefaultConfig))) \<le> 3 \<and>
   int (calls (snd (DoWithContext amd64_conversion
     \<lparr>done_before = \<lambda>k. False, done_in_wait = \<lambda>k. False, Err = ContextError Canceled\<rparr>
     (\<lambda>k. Some (ErrorString ''down'')) (\<lambda>k. 0) DefaultConfig))) \<le> 3 \<and>
   Do amd64_conversion (\<lambda>k. None) (\<lambda>k. 0) DefaultConfig = (None, \<lparr>calls = 1, waits = []\<rparr>) \<and>
   DoWithContext amd64_conversion
     \<lparr>done_before = \<lambda>k. False, done_in_wait = \<lambda>k. False, Err = ContextError Canceled\<rparr>
     (\<lambda>k. None) (\<lambda>k. 0) DefaultConfig = (None, \<lparr>calls = 1, waits = []\<rparr>)"
  using retry_invocations_bounded [where config = DefaultConfig and impl = amd64_conversion
      and fn = "\<lambda>k. None" and rnd = "\<lambda>k. 0"
      and ctx = "\<lparr>done_before = \<lambda>k. False, done_in_wait = \<lambda>k. False, Err = ContextError Canceled\<rparr>"]
    retry_invocations_bounded [where config = DefaultConfig and impl = amd64_conversion
      and fn = "\<lambda>k. Some (ErrorString ''down'')" and rnd = "\<lambda>k. 0"
      and ctx = "\<lparr>done_before = \<lambda>k. False, done_in_wait = \<lambda>k. False, Err = ContextError Canceled\<rparr>"]
  by (simp add: DefaultConfig_def)

subsection \<open>No validation of the policy\<close>

text \<open>
  Claim C7, as stated, fails: nothing rejects a malformed policy. \<open>Config\<close> is a plain
  struct, and \<open>Do\<close> runs under a policy with a multiplier below 1, a jitter factor above 1
  and negative intervals: it invokes the operation twice and returns success.
\<close>

theorem malformed_policy_runs:
  "spec_ConfigInvalid malformed_policy \<and>
   Multiplier malformed_policy = Finite (1 / 2) \<and> RandomizationFactor malformed_policy = Finite 2 \<and>
   InitialInterval malformed_policy = - 5 \<and> MaxInterval malformed_policy = - 1 \<and>
   Do amd64_conversion (\<lambda>k. if k = 1 then Some (ErrorString ''down'') else None) (\<lambda>k. 0)
      malformed_policy
     = (None, \<lparr>calls = 2, waits = [- 1]\<rparr>)"
  by (simp add: spec_ConfigInvalid_def malformed_policy_def Do_def Do_loop.simps
      calculateNextInterval_def jitteredInterval_def jitterBand_def fsub_def
      float64_of_int_def Duration_def Let_def ceiling_def)

text \<open>
  Claim C7, amended. \<open>Do\<close> and \<open>DoWithContext\<close> accept every policy, malformed or not. With
  \<open>maxAttempts \<ge> 1\<close> they invoke the operation at least once (\<open>DoWithContext\<close> unless the
  context is done already), and what they return is nil, the context's error, or the message
  of one of the operation's errors with the marker of exhausted retries: there is no
  configuration error, at construction or at call time.
\<close>

theorem retry_runs_under_any_policy:
  assumes "1 \<le> MaxAttempts config"
  shows "1 \<le> calls (snd (Do impl fn rnd config)) \<and>
         (fst (Do impl fn rnd config) = None \<or>
          (\<exists>k e. fn k = Some e \<and> fst (Do impl fn rnd config)
              = Some (ErrorString (Error e @ '': '' @ Error ErrMaxRetriesReached)))) \<and>
         (\<not> done_before ctx 1 \<longrightarrow> 1 \<le> calls (snd (DoWithContext impl ctx fn rnd config))) \<and>
         (fst (DoWithContext impl ctx fn rnd config) = None \<or>
          fst (DoWithContext impl ctx fn rnd config) = Some (Err ctx) \<or>
          (\<exists>k e. fn k = Some e \<and> fst (DoWithContext impl ctx fn rnd config)
              = Some (ErrorString (Error e @ '': '' @ Error ErrMaxRetriesReached))))"
proof -
  have "1 \<le> calls (snd (Do impl fn rnd config))"
    using Do_loop_calls_ge_Suc [where attempt = 1 and config = config
        and tr = "\<lparr>calls = 0, waits = []\<rparr>" and impl = impl and fn = fn and rnd = rnd
        and nextInterval = "InitialInterval config" and err = None]
      assms by (simp add: Do_def)
  moreover have "1 \<le> calls (snd (DoWithContext impl ctx fn rnd config))" if "\<not> done_before ctx 1"
    using DoWithContext_loop_calls_ge_Suc [where attempt = 1 and config = config and ctx = ctx
        and tr = "\<lparr>calls = 0, waits = []\<rparr>" and impl = impl and fn = fn and rnd = rnd
        and nextInterval = "InitialInterval config" and err = None]
      assms that by (simp add: DoWithContext_def)
  moreover have "fst (Do impl fn rnd config) = None \<or>
          (\<exists>k e. fn k = Some e \<and> fst (Do impl fn rnd config)
              = Some (ErrorString (Error e @ '': '' @ Error ErrMaxRetriesReached)))"
    using Do_loop_result_shape
      [of impl fn rnd config 1 "InitialInterval config" None "\<lparr>calls = 0, waits = []\<rparr>"]
    by (simp add: Do_def after_loop_def)
  moreover have "fst (DoWithContext impl ctx fn rnd config) = None \<or>
          fst (DoWithContext impl ctx fn rnd config) = Some (Err ctx) \<or>
          (\<exists>k e. fn k = Some e \<and> fst (DoWithContext impl ctx fn rnd config)
              = Some (ErrorString (Error e @ '': '' @ Error ErrMaxRetriesReached)))"
    using DoWithContext_loop_result_shape
      [of impl ctx fn rnd config 1 "InitialInterval config" None "\<lparr>calls = 0, waits = []\<rparr>"]
    by (auto simp add: DoWithContext_def after_loop_def)
  ultimately show ?thesis by blast
qed

text \<open>
  The amended claim at the malformed policy.
\<close>

theorem retry_runs_under_any_policy_witness:
  "1 \<le> MaxAttempts malformed_policy \<and> spec_ConfigInvalid malformed_policy \<and>
   1 \<le> calls (snd (Do amd64_conversion (\<lambda>k. Some (ErrorString ''down'')) (\<lambda>k. 0) malformed_policy)) \<and>
   fst (Do amd64_conversion (\<lambda>k. Some (ErrorString ''down'')) (\<lambda>k. 0) malformed_policy)
     = Some (ErrorString ''down: max retries reached'') \<and>
   1 \<le> calls (snd (DoWithContext amd64_conversion
      \<lparr>done_before = \<lambda>k. False, done_in_wait = \<lambda>k. False, Err = ContextError Canceled\<rparr>
      (\<lambda>k. Some (ErrorString ''down'')) (\<lambda>k. 0) malformed_policy))"
proof -
  have "fst (Do amd64_conversion (\<lambda>k. Some (ErrorString ''down'')) (\<lambda>k. 0) malformed_policy)
     = Some (ErrorString ''down: max retries reached'')"
    by (simp add: malformed_policy_def Do_def Do_loop.simps after_loop_def ErrMaxRetriesReached_def
        Let_def)
  then show ?thesis
    using retry_runs_under_any_policy [where config = malformed_policy and impl = amd64_conversion
      and fn = "\<lambda>k. Some (ErrorString ''down'')" and rnd = "\<lambda>k. 0"
      and ctx = "\<lparr>done_before = \<lambda>k. False, done_in_wait = \<lambda>k. False, Err = ContextError Canceled\<rparr>"]
    by (simp add: malformed_policy_def spec_ConfigInvalid_def)
qed

subsection \<open>Cancellation\<close>

text \<open>
  Claim C8. Let attempts \<open>1\<close> to \<open>k - 1\<close> of \<open>DoWithContext\<close> fail without the context
  being done. If the context is done at the check before attempt \<open>k\<close>, the call returns the
  context's error and attempt \<open>k\<close> is not made: \<open>k - 1\<close> invocations in all. If attempt \<open>k\<close>
  fails, is not the last, and the context is done during the wait that follows, the call
  returns the context's error after \<open>k\<close> invocations, fewer than \<open>maxAttempts\<close>, and makes
  no further one.
\<close>

theorem DoWithContext_cancelled:
  assumes "1 \<le> k" "k \<le> MaxAttempts config"
    and "\<forall>j. 1 \<le> j \<and> j < k \<longrightarrow> \<not> done_before ctx j \<and> fn j \<noteq> None \<and> \<not> done_in_wait ctx j"
  shows "(done_before ctx k \<longrightarrow>
            fst (DoWithContext impl ctx fn rnd config) = Some (Err ctx) \<and>
            int (calls (snd (DoWithContext impl ctx fn rnd config))) = k - 1) \<and>
         (\<not> done_before ctx k \<and> fn k \<noteq> None \<and> k < MaxAttempts config \<and> done_in_wait ctx k \<longrightarrow>
            fst (DoWithContext impl ctx fn rnd config) = Some (Err ctx) \<and>
            int (calls (snd (DoWithContext impl ctx fn rnd config))) = k \<and>
            int (calls (snd (DoWithContext impl ctx fn rnd config))) < MaxAttempts config)"
proof -
  have "\<And>j. 1 \<le> j \<Longrightarrow> j < 1 + int (nat (k - 1)) \<Longrightarrow>
      j < MaxAttempts config \<and> \<not> done_before ctx j \<and> fn j \<noteq> None \<and> \<not> done_in_wait ctx j"
    using assms by auto
  from DoWithContext_loop_prefix [where attempt = 1 and n = "nat (k - 1)" and config = config
      and ctx = ctx and fn = fn and impl = impl and rnd = rnd
      and nextInterval = "InitialInterval config" and err = None
      and tr = "\<lparr>calls = 0, waits = []\<rparr>", OF this]
  obtain "next" e ws where
    run: "DoWithContext impl ctx fn rnd config
       = DoWithContext_loop impl ctx fn rnd config k next e \<lparr>calls = nat (k - 1), waits = ws\<rparr>"
    using assms(1) by (auto simp add: DoWithContext_def)
  have a: "fst (DoWithContext impl ctx fn rnd config) = Some (Err ctx) \<and>
            int (calls (snd (DoWithContext impl ctx fn rnd config))) = k - 1"
    if "done_before ctx k"
    unfolding run using that assms(1,2) by (simp add: DoWithContext_loop_done_before)
  have b: "fst (DoWithContext impl ctx fn rnd config) = Some (Err ctx) \<and>
            int (calls (snd (DoWithContext impl ctx fn rnd config))) = k \<and>
            int (calls (snd (DoWithContext impl ctx fn rnd config))) < MaxAttempts config"
    if "\<not> done_before ctx k" "fn k \<noteq> None" "k < MaxAttempts config" "done_in_wait ctx k"
  proof -
    from that(2) obtain e' where "fn k = Some e'" by auto
    then show ?thesis
      unfolding run using that assms(1)
      by (simp add: DoWithContext_loop_done_in_wait [where e = e'])
  qed
  show ?thesis using a b by blast
qed

text \<open>
  The default policy with an operation that always fails: cancelled during the second wait,
  and with a deadline that has passed before the second attempt.
\<close>

theorem DoWithContext_cancelled_witness:
  "(1::int) \<le> 2 \<and> 2 \<le> MaxAttempts DefaultConfig \<and>
   done_in_wait \<lparr>done_before = \<lambda>k. False, done_in_wait = \<lambda>k. k = 2, Err = ContextError Canceled\<rparr> 2 \<and>
   fst (DoWithContext amd64_conversion
      \<lparr>done_before = \<lambda>k. False, done_in_wait = \<lambda>k. k = 2, Err = ContextError Canceled\<rparr>
      (\<lambda>k. Some (ErrorString ''down'')) (\<lambda>k. 0) DefaultConfig) = Some (ContextError Canceled) \<and>
   int (calls (snd (DoWithContext amd64_conversion
      \<lparr>done_before = \<lambda>k. False, done_in_wait = \<lambda>k. k = 2, Err = ContextError Canceled\<rparr>
      (\<lambda>k. Some (ErrorString ''down'')) (\<lambda>k. 0) DefaultConfig))) = 2 \<and>
   done_before \<lparr>done_before = \<lambda>k. k = 2, done_in_wait = \<lambda>k. False, Err = ContextError DeadlineExceeded\<rparr> 2 \<and>
   fst (DoWithContext amd64_conversion
      \<lparr>done_before = \<lambda>k. k = 2, done_in_wait = \<lambda>k. False, Err = ContextError DeadlineExceeded\<rparr>
      (\<lambda>k. Some (ErrorString ''down'')) (\<lambda>k. 0) DefaultConfig) = Some (ContextError DeadlineExceeded) \<and>
   int (calls (snd (DoWithContext amd64_conversion
      \<lparr>done_before = \<lambda>k. k = 2, done_in_wait = \<lambda>k. False, Err = ContextError DeadlineExceeded\<rparr>
      (\<lambda>k. Some (ErrorString ''down'')) (\<lambda>k. 0) DefaultConfig))) = 1"
  using DoWithContext_cancelled [where k = 2 and config = DefaultConfig and impl = amd64_conversion
      and ctx = "\<lparr>done_before = \<lambda>k. False, done_in_wait = \<lambda>k. k = 2, Err = ContextError Canceled\<rparr>"
      and fn = "\<lambda>k. Some (ErrorString ''down'')" and rnd = "\<lambda>k. 0"]
    DoWithContext_cancelled [where k = 2 and config = DefaultConfig and impl = amd64_conversion
      and ctx = "\<lparr>done_before = \<lambda>k. k = 2, done_in_wait = \<lambda>k. False, Err = ContextError DeadlineExceeded\<rparr>"
      and fn = "\<lambda>k. Some (ErrorString ''down'')" and rnd = "\<lambda>k. 0"]
  by (simp add: DefaultConfig_def)

subsection \<open>Exhausted retries\<close>

lemma exhausted_not_marker:
  "ErrorString (m @ '': '' @ Error ErrMaxRetriesReached) \<noteq> ErrMaxRetriesReached"
proof
  assume "ErrorString (m @ '': '' @ Error ErrMaxRetriesReached) = ErrMaxRetriesReached"
  then have "length (m @ '': '' @ Error ErrMaxRetriesReached) = length (Error ErrMaxRetriesReached)"
    by (simp add: ErrMaxRetriesReached_def)
  then show False by simp
qed

text \<open>
  Claim C9, as stated, fails: nothing is wrapped. What \<open>Do\<close> returns under the default
  policy when every attempt fails with \<open>down\<close> is a new \<open>errors.New\<close> value: it has no
  \<open>Unwrap\<close> method, and \<open>errors.Is\<close> finds in it neither the operation's error nor
  \<open>ErrMaxRetriesReached\<close>, where it finds the operation's error in an error that wraps it.
\<close>

theorem exhausted_error_wraps_nothing:
  "fst (Do amd64_conversion (\<lambda>k. Some (ErrorString ''down'')) (\<lambda>k. 0) DefaultConfig)
     = Some (ErrorString ''down: max retries reached'') \<and>
   Unwrap (ErrorString ''down: max retries reached'') = None \<and>
   \<not> errors_Is (ErrorString ''down: max retries reached'') (ErrorString ''down'') \<and>
   \<not> errors_Is (ErrorString ''down: max retries reached'') ErrMaxRetriesReached \<and>
   errors_Is (Wrapped ''down: max retries reached'' (ErrorString ''down'')) (ErrorString ''down'')"
  by (simp add: DefaultConfig_def Do_def Do_loop.simps after_loop_def ErrMaxRetriesReached_def
      Let_def)

text \<open>
  Claim C9, amended. For every policy with \<open>maxAttempts \<ge> 1\<close> and an operation that fails on
  all \<open>maxAttempts\<close> invocations, \<open>Do\<close>, and \<open>DoWithContext\<close> under a context that is never
  done, invoke the operation \<open>maxAttempts\<close> times and return a new error whose message is
  the message of the last operation error followed by \<open>": "\<close> and the message of
  \<open>ErrMaxRetriesReached\<close>. That error differs from the operation's error, has no \<open>Unwrap\<close>
  method, and \<open>errors.Is\<close> finds in it neither the operation's error nor
  \<open>ErrMaxRetriesReached\<close>: the outcome is told from a single failure by the message alone.
\<close>

theorem retry_exhausted_error:
  assumes "1 \<le> MaxAttempts config"
    and "\<forall>k. 1 \<le> k \<and> k < MaxAttempts config \<longrightarrow> fn k \<noteq> None"
    and "fn (MaxAttempts config) = Some e"
  shows "\<exists>r. r = ErrorString (Error e @ '': '' @ Error ErrMaxRetriesReached) \<and>
           fst (Do impl fn rnd config) = Some r \<and>
           fst (Do impl fn rnd config) \<noteq> Some e \<and>
           Unwrap r = None \<and> \<not> errors_Is r e \<and> \<not> errors_Is r ErrMaxRetriesReached \<and>
           int (calls (snd (Do impl fn rnd config))) = MaxAttempts config \<and>
           ((\<forall>k. \<not> done_before ctx k \<and> \<not> done_in_wait ctx k) \<longrightarrow>
              fst (DoWithContext impl ctx fn rnd config) = Some r \<and>
              fst (DoWithContext impl ctx fn rnd config) \<noteq> Some e \<and>
              int (calls (snd (DoWithContext impl ctx fn rnd config))) = MaxAttempts config)"
proof -
  have d: "fst (Do impl fn rnd config) = after_loop (Some e) \<and>
      int (calls (snd (Do impl fn rnd config))) = MaxAttempts config"
    using Do_loop_all_fail [where attempt = 1 and config = config and fn = fn and e = e
        and impl = impl and rnd = rnd and nextInterval = "InitialInterval config" and err = None
        and tr = "\<lparr>calls = 0, waits = []\<rparr>"]
      assms by (simp add: Do_def)
  have c: "DoWithContext impl ctx fn rnd config = Do impl fn rnd config"
    if "\<forall>k. \<not> done_before ctx k \<and> \<not> done_in_wait ctx k"
    unfolding Do_def DoWithContext_def using that by (intro never_cancelled_eq_Do) auto
  have ne: "ErrorString (Error e @ '': '' @ Error ErrMaxRetriesReached) \<noteq> e"
    using after_loop_differs [of e] by (simp add: after_loop_Some)
  show ?thesis
    using d c ne exhausted_not_marker [of "Error e"] by (simp add: after_loop_Some)
qed

text \<open>
  The default policy with an operation that always fails with \<open>down\<close>.
\<close>

theorem retry_exhausted_error_witness:
  "1 \<le> MaxAttempts DefaultConfig \<and>
   (\<lambda>k::int. Some (ErrorString ''down'')) (MaxAttempts DefaultConfig) = Some (ErrorString ''down'') \<and>
   fst (Do amd64_conversion (\<lambda>k. Some (ErrorString ''down'')) (\<lambda>k. 0) DefaultConfig)
     = Some (ErrorString ''down: max retries reached'') \<and>
   int (calls (snd (Do amd64_conversion (\<lambda>k. Some (ErrorString ''down'')) (\<lambda>k. 0) DefaultConfig))) = 3 \<and>
   fst (DoWithContext amd64_conversion
      \<lparr>done_before = \<lambda>k. False, done_in_wait = \<lambda>k. False, Err = ContextError Canceled\<rparr>
      (\<lambda>k. Some (ErrorString ''down'')) (\<lambda>k. 0) DefaultConfig)
     = Some (ErrorString ''down: max retries reached'') \<and>
   int (calls (snd (DoWithContext amd64_conversion
      \<lparr>done_before = \<lambda>k. False, done_in_wait = \<lambda>k. False, Err = ContextError Canceled\<rparr>
      (\<lambda>k. Some (ErrorString ''down'')) (\<lambda>k. 0) DefaultConfig))) = 3"
  using retry_exhausted_error [where config = DefaultConfig and impl = amd64_conversion
      and fn = "\<lambda>k. Some (ErrorString ''down'')" and e = "ErrorString ''down''" and rnd = "\<lambda>k. 0"
      and ctx = "\<lparr>done_before = \<lambda>k. False, done_in_wait = \<lambda>k. False, Err = ContextError Canceled\<rparr>"]
  by (simp add: DefaultConfig_def ErrMaxRetriesReached_def)

subsection \<open>No attempt allowed\<close>

text \<open>
  Claim C10. For every config with \<open>MaxAttempts \<le> 0\<close>, \<open>Do\<close> and \<open>DoWithContext\<close> return nil
  without invoking the operation (\<open>DoWithContext\<close> whatever the state of the context: its
  check is inside the loop).
\<close>

theorem retry_no_attempts:
  assumes "MaxAttempts config \<le> 0"
  shows "Do impl fn rnd config = (None, \<lparr>calls = 0, waits = []\<rparr>) \<and>
         DoWithContext impl ctx fn rnd config = (None, \<lparr>calls = 0, waits = []\<rparr>)"
  using assms
  by (simp add: Do_def DoWithContext_def Do_loop_exit DoWithContext_loop_exit after_loop_def)

text \<open>
  The default policy with \<open>MaxAttempts\<close> set to 0 and an operation that would fail.
\<close>

theorem retry_no_attempts_witness:
  "MaxAttempts (DefaultConfig\<lparr>MaxAttempts := 0\<rparr>) \<le> 0 \<and>
   Do amd64_conversion (\<lambda>k. Some (ErrorString ''down'')) (\<lambda>k. 0) (DefaultConfig\<lparr>MaxAttempts := 0\<rparr>)
     = (None, \<lparr>calls = 0, waits = []\<rparr>) \<and>
   DoWithContext amd64_conversion
     \<lparr>done_before = \<lambda>k. False, done_in_wait = \<lambda>k. False, Err = ContextError Canceled\<rparr>
     (\<lambda>k. Some (ErrorString ''down'')) (\<lambda>k. 0) (DefaultConfig\<lparr>MaxAttempts := 0\<rparr>)
     = (None, \<lparr>calls = 0, waits = []\<rparr>)"
  using retry_no_attempts [where config = "DefaultConfig\<lparr>MaxAttempts := 0\<rparr>"
      and impl = amd64_conversion and fn = "\<lambda>k. Some (ErrorString ''down'')" and rnd = "\<lambda>k. 0"
      and ctx = "\<lparr>done_before = \<lambda>k. False, done_in_wait = \<lambda>k. False, Err = ContextError Canceled\<rparr>"]
  by simp
section \<open>Properties of package healthcheck\<close>

lemma Result_Status_check_result: "Result_Status (check_result ctx check) = fst (Execute check ctx)"
  by (simp add: check_result_def Let_def split: prod.splits option.splits)

lemma RunChecks_loop_Status:
  "Status (RunChecks_loop ctx cs agg) =
     (if \<exists>check \<in> set cs. fst (Execute check ctx) = StatusDown then StatusDown else Status agg)"
  by (induction cs arbitrary: agg) (auto simp add: Let_def Result_Status_check_result)

lemma RunChecks_loop_Details_dom:
  "dom (Details (RunChecks_loop ctx cs agg)) = dom (Details agg) \<union> Name ` set cs"
  by (induction cs arbitrary: agg) (auto simp add: Let_def)

lemma RunChecks_loop_Details_old:
  "n \<notin> Name ` set cs \<Longrightarrow> Details (RunChecks_loop ctx cs agg) n = Details agg n"
  by (induction cs arbitrary: agg) (auto simp add: Let_def)

lemma RunChecks_loop_Details_last:
  "i < length cs \<Longrightarrow> (\<forall>j. i < j \<and> j < length cs \<longrightarrow> Name (cs ! j) \<noteq> Name (cs ! i)) \<Longrightarrow>
   Details (RunChecks_loop ctx cs agg) (Name (cs ! i)) = Some (check_result ctx (cs ! i))"
proof (induction cs arbitrary: agg i)
  case Nil
  then show ?case by simp
next
  case (Cons c cs)
  show ?case
  proof (cases i)
    case 0
    with Cons.prems have "Name c \<notin> Name ` set cs"
      by (fastforce simp add: in_set_conv_nth)
    with 0 show ?thesis by (simp add: Let_def RunChecks_loop_Details_old)
  next
    case (Suc k)
    with Cons.prems have k: "k < length cs" by simp
    have "\<forall>j. k < j \<and> j < length cs \<longrightarrow> Name (cs ! j) \<noteq> Name (cs ! k)"
    proof (intro allI impI)
      fix j assume "k < j \<and> j < length cs"
      then have "i < Suc j \<and> Suc j < length (c # cs)" using Suc by simp
      with Cons.prems(2) have "Name ((c # cs) ! Suc j) \<noteq> Name ((c # cs) ! i)" by blast
      then show "Name (cs ! j) \<noteq> Name (cs ! k)" using Suc by simp
    qed
    from Cons.IH [OF k this] Suc show ?thesis by (simp add: Let_def)
  qed
qed

text \<open>
  Claim C6, as stated, fails where two checks share a name. \<open>Details\<close> is a map keyed by
  the check's name: of two checks named \<open>db\<close>, the first \<open>DOWN\<close> and the second \<open>UP\<close>, it
  keeps one \<open>Result\<close>, the second's, so there is not one \<open>Result\<close> per check; and the
  aggregate is \<open>DOWN\<close> while no collected \<open>Result\<close> is.
\<close>

theorem RunChecks_duplicate_names:
  "length (checks duplicate_checks) = 2 \<and>
   RunChecks () duplicate_checks
     = \<lparr>Status = StatusDown,
        Details = [''db'' \<mapsto> \<lparr>Result_Name = ''db'', Result_Status = StatusUp, Result_Error = ''''\<rparr>]\<rparr> \<and>
   card (dom (Details (RunChecks () duplicate_checks))) = 1"
proof -
  have r: "RunChecks () duplicate_checks
     = \<lparr>Status = StatusDown,
        Details = [''db'' \<mapsto> \<lparr>Result_Name = ''db'', Result_Status = StatusUp, Result_Error = ''''\<rparr>]\<rparr>"
    by (simp add: duplicate_checks_def AddCheck_def NewChecker_def RunChecks_def Let_def
        check_result_def StatusUp_def StatusDown_def)
  show ?thesis unfolding r by (simp add: duplicate_checks_def AddCheck_def NewChecker_def)
qed

text \<open>
  Claim C6, amended. \<open>RunChecks\<close> returns status \<open>DOWN\<close> if and only if \<open>Execute\<close> of at
  least one registered check returned \<open>DOWN\<close>, and \<open>UP\<close> otherwise; with no check
  registered it returns \<open>UP\<close> and no details. \<open>Details\<close> has an entry for each name of a
  check, the \<open>Result\<close> of the last registered check of that name; when the names are
  pairwise distinct this is one \<open>Result\<close> per check.
\<close>

theorem RunChecks_aggregate:
  "(Status (RunChecks ctx c) = StatusDown \<longleftrightarrow>
      (\<exists>check \<in> set (checks c). fst (Execute check ctx) = StatusDown)) \<and>
   (Status (RunChecks ctx c) \<noteq> StatusDown \<longrightarrow> Status (RunChecks ctx c) = StatusUp) \<and>
   (checks c = [] \<longrightarrow> RunChecks ctx c = \<lparr>Status = StatusUp, Details = Map.empty\<rparr>) \<and>
   dom (Details (RunChecks ctx c)) = Name ` set (checks c) \<and>
   (\<forall>i < length (checks c).
      (\<forall>j. i < j \<and> j < length (checks c) \<longrightarrow> Name (checks c ! j) \<noteq> Name (checks c ! i)) \<longrightarrow>
      Details (RunChecks ctx c) (Name (checks c ! i)) = Some (check_result ctx (checks c ! i))) \<and>
   (distinct (map Name (checks c)) \<longrightarrow> card (dom (Details (RunChecks ctx c))) = length (checks c))"
proof -
  let ?init = "\<lparr>Status = StatusUp, Details = Map.empty\<rparr>"
  have run: "RunChecks ctx c = RunChecks_loop ctx (checks c) ?init"
    by (cases "checks c") (simp_all add: RunChecks_def)
  have ne: "StatusUp \<noteq> StatusDown" by (simp add: StatusUp_def StatusDown_def)
  have s: "Status (RunChecks ctx c) =
     (if \<exists>check \<in> set (checks c). fst (Execute check ctx) = StatusDown then StatusDown else StatusUp)"
    unfolding run by (simp add: RunChecks_loop_Status)
  have d: "dom (Details (RunChecks ctx c)) = Name ` set (checks c)"
    unfolding run by (simp add: RunChecks_loop_Details_dom)
  have l: "Details (RunChecks ctx c) (Name (checks c ! i)) = Some (check_result ctx (checks c ! i))"
    if "i < length (checks c)"
      "\<forall>j. i < j \<and> j < length (checks c) \<longrightarrow> Name (checks c ! j) \<noteq> Name (checks c ! i)" for i
    unfolding run using that by (rule RunChecks_loop_Details_last)
  have c: "card (dom (Details (RunChecks ctx c))) = length (checks c)"
    if "distinct (map Name (checks c))"
    unfolding d using that distinct_card [of "map Name (checks c)"] by simp
  show ?thesis using s ne d l c by (simp add: RunChecks_def)
qed

text \<open>
  Two checks of different names, the first \<open>DOWN\<close>, and the empty checker.
\<close>

theorem RunChecks_aggregate_witness:
  "Status (RunChecks () distinct_checks) = StatusDown \<and>
   fst (Execute (checks distinct_checks ! 0) ()) = StatusDown \<and>
   checks distinct_checks ! 0 \<in> set (checks distinct_checks) \<and>
   distinct (map Name (checks distinct_checks)) \<and>
   card (dom (Details (RunChecks () distinct_checks))) = 2 \<and>
   Details (RunChecks () distinct_checks) ''db''
     = Some \<lparr>Result_Name = ''db'', Result_Status = StatusDown, Result_Error = ''refused''\<rparr> \<and>
   checks (NewChecker :: unit Checker) = [] \<and>
   RunChecks () NewChecker = \<lparr>Status = StatusUp, Details = Map.empty\<rparr>"
  using RunChecks_aggregate [of "()" distinct_checks] RunChecks_aggregate [of "()" NewChecker]
  by (simp add: distinct_checks_def AddCheck_def NewChecker_def check_result_def All_less_Suc)

section \<open>Properties of package monitors\<close>

subsection \<open>The buffer of the local logging fallback\<close>

text \<open>
  Claim C5, as stated, fails in two ways. With capacity 0 the buffer holds one point after
  the first \<open>HandleFailure\<close>: flushing an empty buffer does nothing, and the point is
  appended. And when \<open>json.Marshal\<close> fails, \<open>flushBuffer\<close> keeps the buffer, so that a
  full buffer of capacity 1 holds two points after the call.
\<close>

theorem HandleFailure_exceeds_capacity:
  "NewLocalLoggingFallback 1000000 True '''' None 0
     = Some \<lparr>enabled = True, logger = [], buffer = [], maxSize = 0\<rparr> \<and>
   LocalLoggingFallback_HandleFailure (\<lambda>b. Inr ''[]'') 7 ''requests'' CounterType (Finite 1) Map.empty
       \<lparr>enabled = True, logger = [], buffer = [], maxSize = 0\<rparr>
     = (None, \<lparr>enabled = True, logger = [],
          buffer = [\<lparr>MetricData_Name = ''requests'', Type = CounterType, Value = Finite 1,
                      Labels = Map.empty, Timestamp = 7\<rparr>],
          maxSize = 0\<rparr>) \<and>
   length (buffer (snd (LocalLoggingFallback_HandleFailure
       (\<lambda>b. Inl (ErrorString ''json: unsupported value: NaN'')) 7 ''requests'' CounterType (Finite 1) Map.empty
       \<lparr>enabled = True, logger = [],
        buffer = [\<lparr>MetricData_Name = ''latency'', Type = GaugeType, Value = NaN,
                      Labels = Map.empty, Timestamp = 5\<rparr>],
        maxSize = 1\<rparr>))) = 2"
  by (simp add: NewLocalLoggingFallback_def LocalLoggingFallback_HandleFailure_def flushBuffer_def)

text \<open>
  Claim C5, amended. For an enabled \<open>LocalLoggingFallback\<close> of capacity \<open>maxSize \<ge> 1\<close>,
  \<open>HandleFailure\<close> on a full buffer (length \<open>\<ge> maxSize\<close>) flushes before it appends, and
  if serialising the buffer succeeds, the buffer is written to the log as one record and
  then holds the new point alone; on a buffer that is not full the point is appended and
  nothing is logged. In both cases no point is dropped, the call returns nil and the buffer
  holds at most \<open>maxSize\<close> points afterwards.
\<close>

theorem HandleFailure_within_capacity:
  assumes "enabled l" "1 \<le> maxSize l"
    and "maxSize l \<le> int (length (buffer l)) \<longrightarrow> marshal (buffer l) = Inr data"
  shows "fst (LocalLoggingFallback_HandleFailure marshal now metricName metricType val labels l) = None \<and>
     int (length (buffer (snd (LocalLoggingFallback_HandleFailure marshal now metricName metricType val labels l))))
       \<le> maxSize l \<and>
     snd (LocalLoggingFallback_HandleFailure marshal now metricName metricType val labels l)
       = (if maxSize l \<le> int (length (buffer l))
          then l\<lparr>logger := logger l @ [InfoEntry (length (buffer l)) data],
                 buffer := [\<lparr>MetricData_Name = metricName, Type = metricType, Value = val,
                              Labels = labels, Timestamp = now\<rparr>]\<rparr>
          else l\<lparr>buffer := buffer l @ [\<lparr>MetricData_Name = metricName, Type = metricType, Value = val,
                              Labels = labels, Timestamp = now\<rparr>]\<rparr>)"
proof (cases "maxSize l \<le> int (length (buffer l))")
  case True
  with assms have m: "marshal (buffer l) = Inr data" and ne: "buffer l \<noteq> []" by auto
  show ?thesis using assms(1,2) True m ne
    by (simp add: LocalLoggingFallback_HandleFailure_def flushBuffer_def Let_def)
next
  case False
  then show ?thesis using assms(1)
    by (simp add: LocalLoggingFallback_HandleFailure_def Let_def)
qed

text \<open>
  Capacity 2: appending \<open>C\<close> to the buffer \<open>[A, B]\<close> logs one record of two points and
  leaves \<open>[C]\<close>; appending \<open>B\<close> to \<open>[A]\<close> only appends.
\<close>

theorem HandleFailure_within_capacity_witness:
  "enabled \<lparr>enabled = True, logger = [], buffer = [point ''A'', point ''B''], maxSize = 2\<rparr> \<and>
   (1::int) \<le> 2 \<and> (\<lambda>b. Inr ''[A,B]'' :: go_error + string) [point ''A'', point ''B''] = Inr ''[A,B]'' \<and>
   snd (LocalLoggingFallback_HandleFailure (\<lambda>b. Inr ''[A,B]'') 0 ''C'' CounterType (Finite 1) Map.empty
       \<lparr>enabled = True, logger = [], buffer = [point ''A'', point ''B''], maxSize = 2\<rparr>)
     = \<lparr>enabled = True, logger = [InfoEntry 2 ''[A,B]''], buffer = [point ''C''], maxSize = 2\<rparr> \<and>
   snd (LocalLoggingFallback_HandleFailure (\<lambda>b. Inr ''[A,B]'') 0 ''B'' CounterType (Finite 1) Map.empty
       \<lparr>enabled = True, logger = [], buffer = [point ''A''], maxSize = 2\<rparr>)
     = \<lparr>enabled = True, logger = [], buffer = [point ''A'', point ''B''], maxSize = 2\<rparr>"
  using HandleFailure_within_capacity [of
      "\<lparr>enabled = True, logger = [], buffer = [point ''A'', point ''B''], maxSize = 2\<rparr>"
      "\<lambda>b. Inr ''[A,B]''" "''[A,B]''" 0 "''C''" CounterType "Finite 1" Map.empty]
    HandleFailure_within_capacity [of
      "\<lparr>enabled = True, logger = [], buffer = [point ''A''], maxSize = 2\<rparr>"
      "\<lambda>b. Inr ''[A,B]''" "''[A,B]''" 0 "''B''" CounterType "Finite 1" Map.empty]
  by (simp add: point_def)

subsection \<open>The health state of the monitor\<close>

lemma use_fallback_frame:
  "isHealthy (snd (use_fallback F name metricType val labels m)) = isHealthy m \<and>
   primaryMonitor (snd (use_fallback F name metricType val labels m)) = primaryMonitor m \<and>
   healthCheckTicker (snd (use_fallback F name metricType val labels m)) = healthCheckTicker m"
  by (simp add: use_fallback_def Let_def split: option.splits prod.splits)

lemma Counter_frame:
  "healthCheckTicker (snd (MonitorWithFallback_Counter P F name val labels m)) = healthCheckTicker m \<and>
   (\<not> isHealthy m \<longrightarrow> \<not> isHealthy (snd (MonitorWithFallback_Counter P F name val labels m)))"
  by (simp add: MonitorWithFallback_Counter_def use_fallback_frame split: prod.splits option.splits)

lemma Gauge_frame:
  "healthCheckTicker (snd (MonitorWithFallback_Gauge P F name val labels m)) = healthCheckTicker m \<and>
   (\<not> isHealthy m \<longrightarrow> \<not> isHealthy (snd (MonitorWithFallback_Gauge P F name val labels m)))"
  by (simp add: MonitorWithFallback_Gauge_def use_fallback_frame split: prod.splits option.splits)

lemma Histogram_frame:
  "healthCheckTicker (snd (MonitorWithFallback_Histogram P F name val labels m)) = healthCheckTicker m \<and>
   (\<not> isHealthy m \<longrightarrow> \<not> isHealthy (snd (MonitorWithFallback_Histogram P F name val labels m)))"
  by (simp add: MonitorWithFallback_Histogram_def use_fallback_frame split: prod.splits option.splits)

lemma step_no_ticker:
  "healthCheckTicker m = None \<Longrightarrow>
   healthCheckTicker (step P F m e) = None \<and> (\<not> isHealthy m \<longrightarrow> \<not> isHealthy (step P F m e))"
  by (cases e) (simp_all add: Counter_frame Gauge_frame Histogram_frame)

lemma run_no_ticker:
  "healthCheckTicker m = None \<Longrightarrow> \<not> isHealthy m \<Longrightarrow> \<not> isHealthy (foldl (step P F) m es)"
proof (induction es arbitrary: m)
  case Nil
  then show ?case by simp
next
  case (Cons e es)
  from step_no_ticker [of m P F e] Cons.prems
  have "healthCheckTicker (step P F m e) = None" "\<not> isHealthy (step P F m e)" by auto
  from Cons.IH [OF this] show ?case by simp
qed

lemma run_keeps_no_ticker:
  "healthCheckTicker m = None \<Longrightarrow> healthCheckTicker (foldl (step P F) m es) = None"
  by (induction es arbitrary: m) (simp_all add: step_no_ticker)

lemma write_step_stays_degraded:
  "e \<noteq> Tick \<Longrightarrow> \<not> isHealthy m \<Longrightarrow> \<not> isHealthy (step P F m e)"
  by (cases e) (simp_all add: Counter_frame Gauge_frame Histogram_frame)

lemma Counter_failure_degrades:
  "fst (Counter P name val labels (primaryMonitor m)) \<noteq> None \<Longrightarrow>
   \<not> isHealthy (snd (MonitorWithFallback_Counter P F name val labels m))"
  by (auto simp add: MonitorWithFallback_Counter_def use_fallback_frame split: prod.splits option.splits)

lemma Gauge_failure_degrades:
  "fst (Gauge P name val labels (primaryMonitor m)) \<noteq> None \<Longrightarrow>
   \<not> isHealthy (snd (MonitorWithFallback_Gauge P F name val labels m))"
  by (auto simp add: MonitorWithFallback_Gauge_def use_fallback_frame split: prod.splits option.splits)

lemma Histogram_failure_degrades:
  "fst (Histogram P name val labels (primaryMonitor m)) \<noteq> None \<Longrightarrow>
   \<not> isHealthy (snd (MonitorWithFallback_Histogram P F name val labels m))"
  by (auto simp add: MonitorWithFallback_Histogram_def use_fallback_frame split: prod.splits option.splits)

lemma tick_step:
  "healthCheckTicker m \<noteq> None \<Longrightarrow>
   isHealthy (step P F m Tick) = fst (fst (IsHealthy P (primaryMonitor m))) \<and>
   primaryMonitor (step P F m Tick) = snd (IsHealthy P (primaryMonitor m))"
  by (auto simp add: periodicHealthCheck_tick_def split: prod.splits)

lemma step_recovers:
  assumes "\<not> isHealthy m" "isHealthy (step P F m e)"
  shows "e = Tick \<and> healthCheckTicker m \<noteq> None \<and> fst (fst (IsHealthy P (primaryMonitor m)))"
proof -
  have e: "e = Tick"
    using write_step_stays_degraded [of e m P F] assms by blast
  have t: "healthCheckTicker m \<noteq> None"
    using assms unfolding e by (cases "healthCheckTicker m") simp_all
  from tick_step [OF t, of P F] assms(2) show ?thesis
    using e t by simp
qed

text \<open>
  Claim C4. A \<open>MonitorWithFallback\<close> starts healthy. A write whose call of the primary
  backend returns an error leaves it degraded. While it is degraded, \<open>Counter\<close>, \<open>Gauge\<close>
  and \<open>Histogram\<close> are the fallback path alone: they leave the primary backend as it is,
  return what the strategy's \<open>HandleFailure\<close> returns when a strategy is set and enabled,
  and no write makes the monitor healthy again. When \<open>periodicCheck\<close> is zero or negative
  there is no probe, and a monitor that is degraded after some calls is degraded after any
  further ones. The probe is the only way back: a step that makes a degraded monitor healthy
  is a tick of an existing ticker at which the primary backend's \<open>IsHealthy\<close> returned
  true, and every tick of an existing ticker sets the state to what \<open>IsHealthy\<close> returned.
\<close>

theorem MonitorWithFallback_degrades:
  "isHealthy (NewMonitorWithFallback primary fallback period) \<and>
   (isHealthy m \<and> fst (Counter P name val labels (primaryMonitor m)) \<noteq> None \<longrightarrow>
      \<not> isHealthy (snd (MonitorWithFallback_Counter P F name val labels m))) \<and>
   (isHealthy m \<and> fst (Gauge P name val labels (primaryMonitor m)) \<noteq> None \<longrightarrow>
      \<not> isHealthy (snd (MonitorWithFallback_Gauge P F name val labels m))) \<and>
   (isHealthy m \<and> fst (Histogram P name val labels (primaryMonitor m)) \<noteq> None \<longrightarrow>
      \<not> isHealthy (snd (MonitorWithFallback_Histogram P F name val labels m))) \<and>
   (\<not> isHealthy m \<longrightarrow>
      MonitorWithFallback_Counter P F name val labels m = use_fallback F name CounterType val labels m \<and>
      MonitorWithFallback_Gauge P F name val labels m = use_fallback F name GaugeType val labels m \<and>
      MonitorWithFallback_Histogram P F name val labels m
        = use_fallback F name HistogramType val labels m \<and>
      primaryMonitor (snd (use_fallback F name metricType val labels m)) = primaryMonitor m \<and>
      (\<forall>f. fallbackStrategy m = Some f \<and> IsEnabled F f \<longrightarrow>
         fst (use_fallback F name metricType val labels m)
           = fst (HandleFailure F name metricType val labels f) \<and>
         fallbackStrategy (snd (use_fallback F name metricType val labels m))
           = Some (snd (HandleFailure F name metricType val labels f))) \<and>
      (\<forall>e. e \<noteq> Tick \<longrightarrow> \<not> isHealthy (step P F m e))) \<and>
   (period \<le> 0 \<and> \<not> isHealthy (foldl (step P F) (NewMonitorWithFallback primary fallback period) es) \<longrightarrow>
      \<not> isHealthy (foldl (step P F) (NewMonitorWithFallback primary fallback period) (es @ es'))) \<and>
   (\<forall>e. \<not> isHealthy m \<and> isHealthy (step P F m e) \<longrightarrow>
      e = Tick \<and> healthCheckTicker m \<noteq> None \<and> fst (fst (IsHealthy P (primaryMonitor m)))) \<and>
   (healthCheckTicker m \<noteq> None \<longrightarrow>
      isHealthy (step P F m Tick) = fst (fst (IsHealthy P (primaryMonitor m))) \<and>
      primaryMonitor (step P F m Tick) = snd (IsHealthy P (primaryMonitor m)))"
proof -
  have init: "isHealthy (NewMonitorWithFallback primary fallback period)"
    by (simp add: NewMonitorWithFallback_def)
  have deg: "MonitorWithFallback_Counter P F name val labels m = use_fallback F name CounterType val labels m"
      "MonitorWithFallback_Gauge P F name val labels m = use_fallback F name GaugeType val labels m"
      "MonitorWithFallback_Histogram P F name val labels m
        = use_fallback F name HistogramType val labels m"
    if "\<not> isHealthy m"
    using that
    by (simp_all add: MonitorWithFallback_Counter_def MonitorWithFallback_Gauge_def
        MonitorWithFallback_Histogram_def)
  have fb: "fst (use_fallback F name metricType val labels m)
           = fst (HandleFailure F name metricType val labels f) \<and>
         fallbackStrategy (snd (use_fallback F name metricType val labels m))
           = Some (snd (HandleFailure F name metricType val labels f))"
    if "fallbackStrategy m = Some f \<and> IsEnabled F f" for f
    using that by (simp add: use_fallback_def Let_def split: prod.splits)
  have mono: "\<not> isHealthy (foldl (step P F) (NewMonitorWithFallback primary fallback period) (es @ es'))"
    if "period \<le> 0" "\<not> isHealthy (foldl (step P F) (NewMonitorWithFallback primary fallback period) es)"
  proof -
    have "healthCheckTicker (NewMonitorWithFallback primary fallback period) = None"
      using that(1) by (simp add: NewMonitorWithFallback_def)
    then have "healthCheckTicker (foldl (step P F) (NewMonitorWithFallback primary fallback period) es) = None"
      by (rule run_keeps_no_ticker)
    from run_no_ticker [OF this that(2), of P F es'] show ?thesis by simp
  qed
  have rec: "e = Tick \<and> healthCheckTicker m \<noteq> None \<and> fst (fst (IsHealthy P (primaryMonitor m)))"
    if "\<not> isHealthy m \<and> isHealthy (step P F m e)" for e
    using that step_recovers [of m P F e] by blast
  have tick: "isHealthy (step P F m Tick) = fst (fst (IsHealthy P (primaryMonitor m))) \<and>
      primaryMonitor (step P F m Tick) = snd (IsHealthy P (primaryMonitor m))"
    if "healthCheckTicker m \<noteq> None"
    using that by (rule tick_step)
  have old: "isHealthy (NewMonitorWithFallback primary fallback period) \<and>
   (isHealthy m \<and> fst (Counter P name val labels (primaryMonitor m)) \<noteq> None \<longrightarrow>
      \<not> isHealthy (snd (MonitorWithFallback_Counter P F name val labels m))) \<and>
   (isHealthy m \<and> fst (Gauge P name val labels (primaryMonitor m)) \<noteq> None \<longrightarrow>
      \<not> isHealthy (snd (MonitorWithFallback_Gauge P F name val labels m))) \<and>
   (isHealthy m \<and> fst (Histogram P name val labels (primaryMonitor m)) \<noteq> None \<longrightarrow>
      \<not> isHealthy (snd (MonitorWithFallback_Histogram P F name val labels m))) \<and>
   (\<not> isHealthy m \<longrightarrow>
      MonitorWithFallback_Counter P F name val labels m = use_fallback F name CounterType val labels m \<and>
      MonitorWithFallback_Gauge P F name val labels m = use_fallback F name GaugeType val labels m \<and>
      MonitorWithFallback_Histogram P F name val labels m
        = use_fallback F name HistogramType val labels m \<and>
      primaryMonitor (snd (use_fallback F name metricType val labels m)) = primaryMonitor m \<and>
      (\<forall>f. fallbackStrategy m = Some f \<and> IsEnabled F f \<longrightarrow>
         fst (use_fallback F name metricType val labels m)
           = fst (HandleFailure F name metricType val labels f) \<and>
         fallbackStrategy (snd (use_fallback F name metricType val labels m))
           = Some (snd (HandleFailure F name metricType val labels f))) \<and>
      (\<forall>e. e \<noteq> Tick \<longrightarrow> \<not> isHealthy (step P F m e))) \<and>
   (period \<le> 0 \<and> \<not> isHealthy (foldl (step P F) (NewMonitorWithFallback primary fallback period) es) \<longrightarrow>
      \<not> isHealthy (foldl (step P F) (NewMonitorWithFallback primary fallback period) (es @ es')))"
    using init deg fb mono use_fallback_frame [of F name metricType val labels m]
      Counter_failure_degrades [of P name val labels m F]
      Gauge_failure_degrades [of P name val labels m F]
      Histogram_failure_degrades [of P name val labels m F]
      write_step_stays_degraded [of _ m P F]
    by blast
  show ?thesis
    using old rec tick by blast
qed

text \<open>
  A primary backend that refuses every write, a local logging fallback and no probe: the
  first counter call degrades the monitor and buffers the point; the calls after it do not
  reach the primary backend and are buffered too. And a degraded monitor with a ticker, over
  a backend that reports itself healthy: the tick makes it healthy again.
\<close>

theorem MonitorWithFallback_degrades_witness:
  "isHealthy unprobed_monitor \<and>
   fst (Counter failing_primary ''requests'' (Finite 1) Map.empty (primaryMonitor unprobed_monitor)) \<noteq> None \<and>
   \<not> isHealthy degraded_monitor \<and> primaryMonitor degraded_monitor = 1 \<and>
   MonitorWithFallback_Counter failing_primary logging_strategy ''requests'' (Finite 1) Map.empty degraded_monitor
     = use_fallback logging_strategy ''requests'' CounterType (Finite 1) Map.empty degraded_monitor \<and>
   primaryMonitor (snd (MonitorWithFallback_Counter failing_primary logging_strategy ''requests'' (Finite 1)
     Map.empty degraded_monitor)) = 1 \<and>
   (0::int) \<le> 0 \<and>
   \<not> isHealthy (foldl (step failing_primary logging_strategy) unprobed_monitor
        [CounterCall ''requests'' (Finite 1) Map.empty]) \<and>
   \<not> isHealthy (foldl (step failing_primary logging_strategy) unprobed_monitor
        ([CounterCall ''requests'' (Finite 1) Map.empty] @
         [CounterCall ''requests'' (Finite 1) Map.empty, Tick, GaugeCall ''load'' (Finite 2) Map.empty])) \<and>
   primaryMonitor (foldl (step failing_primary logging_strategy) unprobed_monitor
        ([CounterCall ''requests'' (Finite 1) Map.empty] @
         [CounterCall ''requests'' (Finite 1) Map.empty, Tick, GaugeCall ''load'' (Finite 2) Map.empty])) = 1 \<and>
   map_option (\<lambda>l. length (buffer l))
     (fallbackStrategy (foldl (step failing_primary logging_strategy) unprobed_monitor
        ([CounterCall ''requests'' (Finite 1) Map.empty] @
         [CounterCall ''requests'' (Finite 1) Map.empty, Tick, GaugeCall ''load'' (Finite 2) Map.empty]))) = Some 3 \<and>
   \<not> isHealthy probed_monitor \<and> healthCheckTicker probed_monitor = Some (30 * Second) \<and>
   fst (fst (IsHealthy recovered_primary (primaryMonitor probed_monitor))) \<and>
   isHealthy (step recovered_primary logging_strategy probed_monitor Tick) \<and>
   \<not> isHealthy (step recovered_primary logging_strategy probed_monitor
        (CounterCall ''requests'' (Finite 1) Map.empty))"
proof -
  have m1: "degraded_monitor = \<lparr>primaryMonitor = 1,
      fallbackStrategy = Some \<lparr>enabled = True, logger = [],
        buffer = [\<lparr>MetricData_Name = ''requests'', Type = CounterType, Value = Finite 1,
                    Labels = Map.empty, Timestamp = 0\<rparr>], maxSize = 1000\<rparr>,
      healthCheckTicker = None, isHealthy = False, periodicCheck = 0\<rparr>"
    by (simp add: degraded_monitor_def unprobed_monitor_def NewMonitorWithFallback_def
        MonitorWithFallback_Counter_def failing_primary_def logging_strategy_def use_fallback_def
        LocalLoggingFallback_IsEnabled_def LocalLoggingFallback_HandleFailure_def)
  have run: "foldl (step failing_primary logging_strategy) unprobed_monitor
        ([CounterCall ''requests'' (Finite 1) Map.empty] @
         [CounterCall ''requests'' (Finite 1) Map.empty, Tick, GaugeCall ''load'' (Finite 2) Map.empty])
      = \<lparr>primaryMonitor = 1,
      fallbackStrategy = Some \<lparr>enabled = True, logger = [],
        buffer = [\<lparr>MetricData_Name = ''requests'', Type = CounterType, Value = Finite 1,
                    Labels = Map.empty, Timestamp = 0\<rparr>,
                  \<lparr>MetricData_Name = ''requests'', Type = CounterType, Value = Finite 1,
                    Labels = Map.empty, Timestamp = 0\<rparr>,
                  \<lparr>MetricData_Name = ''load'', Type = GaugeType, Value = Finite 2,
                    Labels = Map.empty, Timestamp = 0\<rparr>], maxSize = 1000\<rparr>,
      healthCheckTicker = None, isHealthy = False, periodicCheck = 0\<rparr>"
    by (simp add: m1 [unfolded degraded_monitor_def])
      (simp add: MonitorWithFallback_Counter_def MonitorWithFallback_Gauge_def
        logging_strategy_def use_fallback_def
        LocalLoggingFallback_IsEnabled_def LocalLoggingFallback_HandleFailure_def)
  have h: "isHealthy unprobed_monitor"
    by (simp add: unprobed_monitor_def NewMonitorWithFallback_def)
  have f: "fst (Counter failing_primary ''requests'' (Finite 1) Map.empty (primaryMonitor unprobed_monitor)) \<noteq> None"
    by (simp add: failing_primary_def)
  have d: "\<not> isHealthy degraded_monitor" "primaryMonitor degraded_monitor = 1"
    by (simp_all add: m1)
  have p: "\<not> isHealthy probed_monitor" "healthCheckTicker probed_monitor = Some (30 * Second)"
    "fst (fst (IsHealthy recovered_primary (primaryMonitor probed_monitor)))"
    by (simp_all add: probed_monitor_def NewMonitorWithFallback_def Second_def Millisecond_def
        MonitorWithFallback_Counter_def recovered_primary_def logging_strategy_def use_fallback_def
        LocalLoggingFallback_IsEnabled_def LocalLoggingFallback_HandleFailure_def)
  from MonitorWithFallback_degrades [where primary = 0
      and fallback = "Some \<lparr>enabled = True, logger = [], buffer = [], maxSize = 1000\<rparr>"
      and period = 0 and m = unprobed_monitor and P = failing_primary and name = "''requests''"
      and val = "Finite 1" and labels = Map.empty and F = logging_strategy
      and metricType = CounterType and es = "[CounterCall ''requests'' (Finite 1) Map.empty]"
      and es' = "[CounterCall ''requests'' (Finite 1) Map.empty, Tick,
                  GaugeCall ''load'' (Finite 2) Map.empty]"]
    MonitorWithFallback_degrades [where primary = 0
      and fallback = "Some \<lparr>enabled = True, logger = [], buffer = [], maxSize = 1000\<rparr>"
      and period = 0 and m = degraded_monitor and P = failing_primary and name = "''requests''"
      and val = "Finite 1" and labels = Map.empty and F = logging_strategy
      and metricType = CounterType and es = "[CounterCall ''requests'' (Finite 1) Map.empty]"
      and es' = "[CounterCall ''requests'' (Finite 1) Map.empty, Tick,
                  GaugeCall ''load'' (Finite 2) Map.empty]"]
  have a: "\<not> isHealthy (foldl (step failing_primary logging_strategy) unprobed_monitor
        [CounterCall ''requests'' (Finite 1) Map.empty])"
     "MonitorWithFallback_Counter failing_primary logging_strategy ''requests'' (Finite 1) Map.empty
        degraded_monitor
      = use_fallback logging_strategy ''requests'' CounterType (Finite 1) Map.empty degraded_monitor"
     "primaryMonitor (snd (MonitorWithFallback_Counter failing_primary logging_strategy ''requests''
        (Finite 1) Map.empty degraded_monitor)) = 1"
    using h f d unfolding run
    by (simp_all add: m1 [unfolded degraded_monitor_def] degraded_monitor_def [symmetric])
  note c = MonitorWithFallback_degrades [where primary = 0
      and fallback = "Some \<lparr>enabled = True, logger = [], buffer = [], maxSize = 1000\<rparr>"
      and period = "30 * Second" and m = probed_monitor and P = recovered_primary
      and name = "''requests''" and val = "Finite 1" and labels = Map.empty
      and F = logging_strategy and metricType = CounterType and es = "[]" and es' = "[]"]
  have b: "isHealthy (step recovered_primary logging_strategy probed_monitor Tick)"
    using c p by simp
  have b': "\<not> isHealthy (step recovered_primary logging_strategy probed_monitor
        (CounterCall ''requests'' (Finite 1) Map.empty))"
    using c p(1) by blast
  show ?thesis using h f d p a b b' unfolding run by simp
qed


end
